theory Spec2Isabelle
  imports Complex_Main
begin

section \<open>Numbers, exceptions and Python's list access\<close>

text \<open>
  The embedding follows \<^verbatim>\<open>src/kivy/uix/gridlayout.py\<close>. Sizes, positions and size hints
  are Python numbers; they are modelled as exact rationals and \<^verbatim>\<open>/\<close> as true division, so
  floating-point rounding is outside the model. A raised exception is the \<open>Inl\<close> branch of
  a sum; the state a raising call leaves behind is not modelled.
\<close>

type_synonym num = rat

datatype error =
  GridLayoutException | IndexError | TypeError | AttributeError | ZeroDivisionError | ValueError

text \<open>\<^verbatim>\<open>xs[i]\<close> for an index that is never negative (a result of \<^verbatim>\<open>divmod\<close> or \<^verbatim>\<open>enumerate\<close>).\<close>

definition list_get :: "'a list \<Rightarrow> nat \<Rightarrow> error + 'a" where
  "list_get xs i = (if i < length xs then Inr (xs ! i) else Inl IndexError)"

text \<open>\<^verbatim>\<open>xs[i] = v\<close> for any integer key: a negative index counts from the end.\<close>

definition list_set :: "'a list \<Rightarrow> int \<Rightarrow> 'a \<Rightarrow> error + 'a list" where
  "list_set xs i v =
     (let n = int (length xs); j = (if i < 0 then n + i else i)
      in if 0 \<le> j \<and> j < n then Inr (xs[nat j := v]) else Inl IndexError)"

text \<open>Truthiness of an optional number: \<^verbatim>\<open>None\<close> and \<^verbatim>\<open>0\<close> are false.\<close>

fun truthy :: "num option \<Rightarrow> bool" where
  "truthy None = False"
| "truthy (Some v) = (v \<noteq> 0)"

fun truthy_count :: "nat option \<Rightarrow> bool" where
  "truthy_count None = False"
| "truthy_count (Some n) = (n \<noteq> 0)"

text \<open>\<^verbatim>\<open>nmax(*args)\<close>, lines 101-106: drop the \<^verbatim>\<open>None\<close>s, then \<^verbatim>\<open>max\<close>, which raises
  \<^verbatim>\<open>ValueError\<close> on an empty sequence.\<close>

definition nmax :: "num option list \<Rightarrow> error + num" where
  "nmax args =
     (case List.map_filter (\<lambda>x. x) args of
        [] \<Rightarrow> Inl ValueError
      | x # xs \<Rightarrow> Inr (fold max xs x))"

section \<open>The data of a grid\<close>

text \<open>A child widget as the layout reads and writes it: \<^verbatim>\<open>size_hint\<close>, \<^verbatim>\<open>size\<close>
  (\<^verbatim>\<open>width\<close>, \<^verbatim>\<open>height\<close>) and \<^verbatim>\<open>pos\<close>. The entries of \<^verbatim>\<open>view_opts\<close> of the recycle grid
  carry the same three keys.\<close>

record widget =
  size_hint :: "num option \<times> num option"
  wsize :: "num \<times> num"
  pos :: "num \<times> num"

text \<open>
  The properties of \<^verbatim>\<open>GridLayout\<close> (lines 119-249) and its private attributes. \<open>p_cols\<close>
  stands for \<^verbatim>\<open>self._cols\<close> and so on; \<open>p_cols = None\<close> is the \<^verbatim>\<open>None\<close> that \<^verbatim>\<open>__init__\<close>
  assigns (line 252). \<^verbatim>\<open>_cols_sh\<close> and \<^verbatim>\<open>_rows_sh\<close> are first assigned by
  \<^verbatim>\<open>_init_rows_cols_sizes\<close>: \<open>None\<close> there means that the attribute does not exist yet.
  \<^verbatim>\<open>cols_minimum\<close> and \<^verbatim>\<open>rows_minimum\<close> are dicts, kept as the list of their items.
  \<open>self_x\<close>, \<open>self_y\<close>, \<open>width\<close>, \<open>height\<close> are the grid's own \<^verbatim>\<open>x\<close>, \<^verbatim>\<open>y\<close>, \<^verbatim>\<open>width\<close>, \<^verbatim>\<open>height\<close>.
  \<^verbatim>\<open>children\<close> is the widget list as the code indexes it; the code reads the flow order
  as \<^verbatim>\<open>reversed(self.children)\<close>.
\<close>

record grid =
  spacing :: "num \<times> num"
  padding :: "num \<times> num \<times> num \<times> num"
  cols :: "nat option"
  rows :: "nat option"
  col_default_width :: num
  row_default_height :: num
  col_force_default :: bool
  row_force_default :: bool
  cols_minimum :: "(int \<times> num) list"
  rows_minimum :: "(int \<times> num) list"
  minimum_size :: "num \<times> num"
  self_x :: num
  self_y :: num
  width :: num
  height :: num
  children :: "widget list"
  p_cols :: "num list option"
  p_rows :: "num list option"
  p_cols_sh :: "num option list option"
  p_rows_sh :: "num option list option"

text \<open>\<^verbatim>\<open>self.top\<close> is declared by the widget base class, which is not part of the source
  file; it is \<^verbatim>\<open>y + height\<close>, the expression line 562 writes out for the same edge.\<close>

definition top :: "'a grid_scheme \<Rightarrow> num" where
  "top s = self_y s + height s"

section \<open>GridLayout\<close>

text \<open>\<^verbatim>\<open>get_max_widgets\<close>, lines 269-273. \<open>None\<close> is Python's \<^verbatim>\<open>None\<close>.\<close>

definition get_max_widgets :: "'a grid_scheme \<Rightarrow> nat option" where
  "get_max_widgets s =
     (case cols s of
        None \<Rightarrow> None
      | Some c \<Rightarrow>
          (case rows s of
             None \<Rightarrow> None
           | Some r \<Rightarrow> if c \<noteq> 0 \<and> r \<noteq> 0 then Some (r * c) else None))"

text \<open>\<^verbatim>\<open>GridLayout.on_children\<close>, lines 275-281: \<open>value\<close> is the new children list.\<close>

definition on_children :: "'a grid_scheme \<Rightarrow> widget list \<Rightarrow> error + unit" where
  "on_children s val =
     (case get_max_widgets s of
        None \<Rightarrow> Inr ()
      | Some smax \<Rightarrow>
          if smax \<noteq> 0 \<and> length val > smax then Inl GridLayoutException else Inr ())"

text \<open>\<^verbatim>\<open>int(ceil(count / float(d)))\<close>, lines 296 and 298. Both calls have \<open>d \<ge> 1\<close>: the
  test of line 291 has passed and the other count is \<^verbatim>\<open>None\<close>.\<close>

definition ceil_div :: "nat \<Rightarrow> nat \<Rightarrow> nat" where
  "ceil_div count d = nat \<lceil>(of_nat count :: rat) / of_nat d\<rceil>"

text \<open>Lines 286-301 of \<^verbatim>\<open>_init_rows_cols_sizes\<close>: the resolved
  \<open>(current_cols, current_rows)\<close>, or \<open>None\<close> when the function returns at line 294.\<close>

definition resolve_shape :: "nat option \<Rightarrow> nat option \<Rightarrow> nat \<Rightarrow> (nat \<times> nat) option" where
  "resolve_shape current_cols current_rows count =
     (if \<not> truthy_count current_cols \<and> \<not> truthy_count current_rows then None
      else (case current_cols of
              None \<Rightarrow> (case current_rows of
                          None \<Rightarrow> None
                        | Some r \<Rightarrow> Some (max 1 (ceil_div count r), max 1 r))
            | Some c \<Rightarrow> (case current_rows of
                          None \<Rightarrow> Some (max 1 c, max 1 (ceil_div count c))
                        | Some r \<Rightarrow> Some (max 1 c, max 1 r))))"

text \<open>The loops of lines 310-313 (and 359-360, 377-378): \<^verbatim>\<open>sizes[index] = value\<close> for every
  item of the dict.\<close>

fun apply_minimum :: "(int \<times> num) list \<Rightarrow> num list \<Rightarrow> error + num list" where
  "apply_minimum [] sizes = Inr sizes"
| "apply_minimum ((index, v) # rest) sizes =
     (case list_set sizes index v of
        Inl e \<Rightarrow> Inl e
      | Inr sizes' \<Rightarrow> apply_minimum rest sizes')"

text \<open>\<^verbatim>\<open>_init_rows_cols_sizes\<close>, lines 283-314. The boolean is the return value:
  \<^verbatim>\<open>None\<close> (false) at line 294, \<^verbatim>\<open>True\<close> at line 314.\<close>

definition init_rows_cols_sizes :: "'a grid_scheme \<Rightarrow> nat \<Rightarrow> error + bool \<times> 'a grid_scheme" where
  "init_rows_cols_sizes s count =
     (case resolve_shape (cols s) (rows s) count of
        None \<Rightarrow> Inr (False, s)
      | Some (current_cols, current_rows) \<Rightarrow>
          (case apply_minimum (cols_minimum s) (replicate current_cols (col_default_width s)) of
             Inl e \<Rightarrow> Inl e
           | Inr cs \<Rightarrow>
               (case apply_minimum (rows_minimum s) (replicate current_rows (row_default_height s)) of
                  Inl e \<Rightarrow> Inl e
                | Inr rs \<Rightarrow>
                    Inr (True, s\<lparr>p_cols := Some cs, p_rows := Some rs,
                                 p_cols_sh := Some (replicate current_cols None),
                                 p_rows_sh := Some (replicate current_rows None)\<rparr>))))"

text \<open>One axis of the loop body of \<^verbatim>\<open>_fill_rows_cols_sizes\<close>, lines 327-330 for the
  column and 332-335 for the row: \<open>k\<close> is the slot, \<open>hint\<close> the size hint on the axis and
  \<open>len\<close> the child's length on it.\<close>

definition fill_axis ::
  "num list \<Rightarrow> num option list \<Rightarrow> nat \<Rightarrow> num option \<Rightarrow> num \<Rightarrow> error + num list \<times> num option list"
where
  "fill_axis sizes sh k hint len =
     (case hint of
        None \<Rightarrow>
          (case list_get sizes k of
             Inl e \<Rightarrow> Inl e
           | Inr cur \<Rightarrow>
               (case nmax [Some cur, Some len] of
                  Inl e \<Rightarrow> Inl e
                | Inr m \<Rightarrow> Inr (sizes[k := m], sh)))
      | Some h \<Rightarrow>
          (case list_get sh k of
             Inl e \<Rightarrow> Inl e
           | Inr cur \<Rightarrow>
               (case nmax [cur, Some h] of
                  Inl e \<Rightarrow> Inl e
                | Inr m \<Rightarrow> Inr (sizes, sh[k := Some m]))))"

text \<open>The four lists the fill loop works on: \<open>(cols, cols_sh, rows, rows_sh)\<close>.\<close>

type_synonym slots = "num list \<times> num option list \<times> num list \<times> num option list"

text \<open>The loop body, lines 323-335, for the child at flow index \<open>i\<close>.\<close>

definition fill_child :: "nat \<Rightarrow> nat \<Rightarrow> widget \<Rightarrow> slots \<Rightarrow> error + slots" where
  "fill_child n_cols i child st =
     (case st of (cs, cols_sh, rs, rows_sh) \<Rightarrow>
      (case size_hint child of (shw, shh) \<Rightarrow>
      (case wsize child of (w, h) \<Rightarrow>
        if n_cols = 0 then Inl ZeroDivisionError
        else
          (case fill_axis cs cols_sh (i mod n_cols) shw w of
             Inl e \<Rightarrow> Inl e
           | Inr (cs', cols_sh') \<Rightarrow>
               (case fill_axis rs rows_sh (i div n_cols) shh h of
                  Inl e \<Rightarrow> Inl e
                | Inr (rs', rows_sh') \<Rightarrow> Inr (cs', cols_sh', rs', rows_sh'))))))"

text \<open>The loop of line 322 over \<^verbatim>\<open>enumerate(...)\<close>, from index \<open>i\<close> on.\<close>

fun fill_loop :: "nat \<Rightarrow> nat \<Rightarrow> widget list \<Rightarrow> slots \<Rightarrow> error + slots" where
  "fill_loop n_cols i [] st = Inr st"
| "fill_loop n_cols i (child # rest) st =
     (case fill_child n_cols i child st of
        Inl e \<Rightarrow> Inl e
      | Inr st' \<Rightarrow> fill_loop n_cols (i + 1) rest st')"

text \<open>\<^verbatim>\<open>GridLayout._fill_rows_cols_sizes\<close>, lines 316-335. Reading a missing
  \<^verbatim>\<open>_cols_sh\<close> raises \<^verbatim>\<open>AttributeError\<close> (line 318), \<^verbatim>\<open>len(None)\<close> raises \<^verbatim>\<open>TypeError\<close>
  (line 321). \<^verbatim>\<open>_rows\<close> is \<^verbatim>\<open>None\<close> only together with \<^verbatim>\<open>_cols\<close> in a static grid.\<close>

definition fill_rows_cols_sizes :: "grid \<Rightarrow> error + grid" where
  "fill_rows_cols_sizes s =
     (case p_cols_sh s of None \<Rightarrow> Inl AttributeError | Some cols_sh \<Rightarrow>
      (case p_rows_sh s of None \<Rightarrow> Inl AttributeError | Some rows_sh \<Rightarrow>
      (case p_cols s of None \<Rightarrow> Inl TypeError | Some cs \<Rightarrow>
      (case p_rows s of None \<Rightarrow> Inl TypeError | Some rs \<Rightarrow>
        (case fill_loop (length cs) 0 (rev (children s)) (cs, cols_sh, rs, rows_sh) of
           Inl e \<Rightarrow> Inl e
         | Inr (cs', cols_sh', rs', rows_sh') \<Rightarrow>
             Inr (s\<lparr>p_cols := Some cs', p_rows := Some rs',
                    p_cols_sh := Some cols_sh', p_rows_sh := Some rows_sh'\<rparr>))))))"

text \<open>\<^verbatim>\<open>_update_minimum_size\<close>, lines 337-350.\<close>

definition update_minimum_size :: "'a grid_scheme \<Rightarrow> error + 'a grid_scheme" where
  "update_minimum_size s =
     (case padding s of (l, t, r, b) \<Rightarrow>
      (case spacing s of (spacing_x, spacing_y) \<Rightarrow>
      (case p_cols s of None \<Rightarrow> Inl TypeError | Some cs \<Rightarrow>
      (case p_rows s of None \<Rightarrow> Inl TypeError | Some rs \<Rightarrow>
        Inr (s\<lparr>minimum_size :=
                 (l + r + spacing_x * (of_nat (length cs) - 1) + sum_list cs,
                  t + b + spacing_y * (of_nat (length rs) - 1) + sum_list rs)\<rparr>)))))"

text \<open>\<^verbatim>\<open>sum([x for x in cols_sh if x])\<close>, lines 365 and 383.\<close>

definition stretch_weight :: "num option list \<Rightarrow> num" where
  "stretch_weight sh = sum_list (map the (filter truthy sh))"

text \<open>
  The stretch loops, lines 367-372 and 385-391, over the indices they visit: a slot whose
  stretch is \<^verbatim>\<open>None\<close> or \<^verbatim>\<open>0\<close> is skipped, any other gets
  \<^verbatim>\<open>strech * stretch / weigth\<close> added. The augmented assignment reads the slot first
  (\<^verbatim>\<open>IndexError\<close>), then divides (\<^verbatim>\<open>ZeroDivisionError\<close>).
\<close>

fun stretch_loop :: "num \<Rightarrow> num \<Rightarrow> num option list \<Rightarrow> nat list \<Rightarrow> num list \<Rightarrow> error + num list" where
  "stretch_loop strech weigth sh [] sizes = Inr sizes"
| "stretch_loop strech weigth sh (index # rest) sizes =
     (case list_get sh index of
        Inl e \<Rightarrow> Inl e
      | Inr None \<Rightarrow> stretch_loop strech weigth sh rest sizes
      | Inr (Some st) \<Rightarrow>
          if st = 0 then stretch_loop strech weigth sh rest sizes
          else (case list_get sizes index of
                  Inl e \<Rightarrow> Inl e
                | Inr cur \<Rightarrow>
                    if weigth = 0 then Inl ZeroDivisionError
                    else stretch_loop strech weigth sh rest
                           (sizes[index := cur + strech * st / weigth])))"

text \<open>Lines 357-372, the columns of \<^verbatim>\<open>_finalize_rows_cols_sizes\<close>: the forced branch
  builds a new list; the other one stretches \<^verbatim>\<open>self._cols\<close>, enumerating \<^verbatim>\<open>cols_sh\<close>.\<close>

definition finalize_cols ::
  "bool \<Rightarrow> num \<Rightarrow> (int \<times> num) list \<Rightarrow> num \<Rightarrow> num \<Rightarrow> num list \<Rightarrow> num option list option
     \<Rightarrow> error + num list"
where
  "finalize_cols force_default default_width minimum selfw minimum_width cs cols_sh =
     (if force_default
      then apply_minimum minimum (replicate (length cs) default_width)
      else (case cols_sh of
              None \<Rightarrow> Inl AttributeError
            | Some sh \<Rightarrow>
                stretch_loop (max 0 (selfw - minimum_width)) (stretch_weight sh) sh
                  [0..<length sh] cs))"

text \<open>Lines 375-391, the rows: the same, but the loop runs over \<^verbatim>\<open>range(len(rows))\<close>.\<close>

definition finalize_rows ::
  "bool \<Rightarrow> num \<Rightarrow> (int \<times> num) list \<Rightarrow> num \<Rightarrow> num \<Rightarrow> num list \<Rightarrow> num option list option
     \<Rightarrow> error + num list"
where
  "finalize_rows force_default default_height minimum selfh minimum_height rs rows_sh =
     (if force_default
      then apply_minimum minimum (replicate (length rs) default_height)
      else (case rows_sh of
              None \<Rightarrow> Inl AttributeError
            | Some sh \<Rightarrow>
                stretch_loop (max 0 (selfh - minimum_height)) (stretch_weight sh) sh
                  [0..<length rs] rs))"

text \<open>\<^verbatim>\<open>_finalize_rows_cols_sizes\<close>, lines 352-391. Both passes call it after
  \<^verbatim>\<open>_update_minimum_size\<close> has taken the lengths of \<^verbatim>\<open>_cols\<close> and \<^verbatim>\<open>_rows\<close>, so the two
  lists exist when it runs; on a \<^verbatim>\<open>None\<close> the model raises \<^verbatim>\<open>TypeError\<close> at once.\<close>

definition finalize_rows_cols_sizes :: "'a grid_scheme \<Rightarrow> error + 'a grid_scheme" where
  "finalize_rows_cols_sizes s =
     (case p_cols s of None \<Rightarrow> Inl TypeError | Some cs \<Rightarrow>
      (case finalize_cols (col_force_default s) (col_default_width s) (cols_minimum s)
              (width s) (fst (minimum_size s)) cs (p_cols_sh s) of
         Inl e \<Rightarrow> Inl e
       | Inr cs' \<Rightarrow>
           (case p_rows s of None \<Rightarrow> Inl TypeError | Some rs \<Rightarrow>
            (case finalize_rows (row_force_default s) (row_default_height s) (rows_minimum s)
                    (height s) (snd (minimum_size s)) rs (p_rows_sh s) of
               Inl e \<Rightarrow> Inl e
             | Inr rs' \<Rightarrow> Inr (s\<lparr>p_cols := Some cs', p_rows := Some rs'\<rparr>)))))"

text \<open>What \<^verbatim>\<open>_iterate_layout\<close> yields: \<^verbatim>\<open>(i, (x, y - row_height), (col_width, row_height))\<close>.\<close>

type_synonym cell = "int \<times> (num \<times> num) \<times> (num \<times> num)"

text \<open>The inner loop, lines 404-410, from index \<open>i\<close> and abscissa \<open>x\<close>; it returns the
  cells and the index it leaves.\<close>

fun iterate_row :: "int \<Rightarrow> num \<Rightarrow> num \<Rightarrow> num \<Rightarrow> num \<Rightarrow> num list \<Rightarrow> cell list \<times> int" where
  "iterate_row i x y row_height spacing_x [] = ([], i)"
| "iterate_row i x y row_height spacing_x (col_width # rest) =
     (if i < 0 then ([], i)
      else (case iterate_row (i - 1) (x + col_width + spacing_x) y row_height spacing_x rest of
              (cells, i') \<Rightarrow> ((i, (x, y - row_height), (col_width, row_height)) # cells, i')))"

text \<open>The outer loop, lines 402-411.\<close>

fun iterate_rows :: "int \<Rightarrow> num \<Rightarrow> num \<Rightarrow> num \<Rightarrow> num \<Rightarrow> num list \<Rightarrow> num list \<Rightarrow> cell list" where
  "iterate_rows i x0 y spacing_x spacing_y cs [] = []"
| "iterate_rows i x0 y spacing_x spacing_y cs (row_height # rest) =
     (case iterate_row i x0 y row_height spacing_x cs of
        (cells, i') \<Rightarrow>
          cells @ iterate_rows i' x0 (y - (row_height + spacing_y)) spacing_x spacing_y cs rest)"

text \<open>\<^verbatim>\<open>_iterate_layout\<close>, lines 393-411, as the list of what the generator yields.\<close>

definition iterate_layout :: "'a grid_scheme \<Rightarrow> nat \<Rightarrow> error + cell list" where
  "iterate_layout s count =
     (case padding s of (padding_left, padding_top, r, b) \<Rightarrow>
      (case spacing s of (spacing_x, spacing_y) \<Rightarrow>
      (case p_cols s of None \<Rightarrow> Inl TypeError | Some cs \<Rightarrow>
      (case p_rows s of None \<Rightarrow> Inl TypeError | Some rs \<Rightarrow>
        Inr (iterate_rows (int count - 1) (self_x s + padding_left) (top s - padding_top)
               spacing_x spacing_y cs rs)))))"

text \<open>The body of the loop of \<^verbatim>\<open>do_layout\<close>, lines 424-433, on the child \<open>c\<close>.\<close>

definition place_child :: "widget \<Rightarrow> num \<times> num \<Rightarrow> num \<times> num \<Rightarrow> widget" where
  "place_child c p sz =
     (case sz of (w, h) \<Rightarrow>
      (case size_hint c of (shw, shh) \<Rightarrow>
        (let c' = c\<lparr>pos := p\<rparr>
         in if shw = None
            then (if shh \<noteq> None then c'\<lparr>wsize := (fst (wsize c), h)\<rparr> else c')
            else (if shh = None then c'\<lparr>wsize := (w, snd (wsize c))\<rparr>
                  else c'\<lparr>wsize := (w, h)\<rparr>))))"

text \<open>The loop of lines 422-433: \<^verbatim>\<open>c = children[i]\<close> for every yielded cell.\<close>

fun place_children :: "cell list \<Rightarrow> widget list \<Rightarrow> error + widget list" where
  "place_children [] cs = Inr cs"
| "place_children ((i, p, sz) # rest) cs =
     (case list_get cs (nat i) of
        Inl e \<Rightarrow> Inl e
      | Inr c \<Rightarrow> place_children rest (cs[nat i := place_child c p sz]))"

text \<open>
  \<^verbatim>\<open>GridLayout.do_layout\<close>, lines 413-433. The branch of lines 415-417 sets
  \<^verbatim>\<open>minimum_size\<close> and then goes on with line 418: there is no \<^verbatim>\<open>return\<close> in it.
\<close>

definition do_layout :: "grid \<Rightarrow> error + grid" where
  "do_layout s =
     (case (if children s = [] then Inr (False, s)
            else init_rows_cols_sizes s (length (children s))) of
        Inl e \<Rightarrow> Inl e
      | Inr (ok, s1) \<Rightarrow>
          (let s2 = (if ok then s1
                     else (case padding s1 of (l, t, r, b) \<Rightarrow>
                             s1\<lparr>minimum_size := (l + r, t + b)\<rparr>))
           in (case fill_rows_cols_sizes s2 of
                 Inl e \<Rightarrow> Inl e
               | Inr s3 \<Rightarrow>
                   (case update_minimum_size s3 of
                      Inl e \<Rightarrow> Inl e
                    | Inr s4 \<Rightarrow>
                        (case finalize_rows_cols_sizes s4 of
                           Inl e \<Rightarrow> Inl e
                         | Inr s5 \<Rightarrow>
                             (case iterate_layout s5 (length (children s5)) of
                                Inl e \<Rightarrow> Inl e
                              | Inr cells \<Rightarrow>
                                  (case place_children cells (children s5) of
                                     Inl e \<Rightarrow> Inl e
                                   | Inr cs \<Rightarrow> Inr (s5\<lparr>children := cs\<rparr>))))))))"

text \<open>A grid as \<^verbatim>\<open>__init__\<close> leaves it, with the property defaults of lines 119-240.\<close>

definition new_grid :: grid where
  "new_grid =
     \<lparr>spacing = (0, 0), padding = (0, 0, 0, 0), cols = None, rows = None,
      col_default_width = 0, row_default_height = 0,
      col_force_default = False, row_force_default = False,
      cols_minimum = [], rows_minimum = [], minimum_size = (0, 0),
      self_x = 0, self_y = 0, width = 100, height = 100, children = [],
      p_cols = None, p_rows = None, p_cols_sh = None, p_rows_sh = None\<rparr>"

text \<open>A widget with the given size hint and size, at the origin.\<close>

definition new_widget :: "num option \<times> num option \<Rightarrow> num \<times> num \<Rightarrow> widget" where
  "new_widget sh sz = \<lparr>size_hint = sh, wsize = sz, pos = (0, 0)\<rparr>"

section \<open>RecycleGridLayout\<close>

text \<open>
  One entry of \<^verbatim>\<open>changed\<close>, line 482:
  \<^verbatim>\<open>index, widget, (w, h), (wn, hn), sh, shn, _, _\<close>. The last two components are never
  read. The widget is only handed on to \<^verbatim>\<open>remove_view\<close>; a number stands for it.
\<close>

record change =
  ch_index :: nat
  ch_widget :: nat
  ch_size :: "num \<times> num"
  ch_new_size :: "num \<times> num"
  ch_sh :: "num option \<times> num option"
  ch_new_sh :: "num option \<times> num option"

text \<open>A \<^verbatim>\<open>defaultdict(int)\<close>: a missing key reads as \<open>0\<close>.\<close>

type_synonym histogram = "num \<Rightarrow> int option"

definition hist_count :: "histogram \<Rightarrow> num \<Rightarrow> int" where
  "hist_count m k = (case m k of None \<Rightarrow> 0 | Some c \<Rightarrow> c)"

text \<open>\<^verbatim>\<open>m[k] += d\<close>.\<close>

definition hist_add :: "histogram \<Rightarrow> num \<Rightarrow> int \<Rightarrow> histogram" where
  "hist_add m k d = m(k \<mapsto> hist_count m k + d)"

text \<open>
  The recycle grid adds to the grid: \<^verbatim>\<open>view_opts\<close> (one entry per data item, in flow
  order, with the keys of a \<open>widget\<close>), \<^verbatim>\<open>_changed_views\<close>, the histograms
  \<^verbatim>\<open>_cols_count\<close> and \<^verbatim>\<open>_rows_count\<close> (\<open>None\<close>: not assigned yet), and \<^verbatim>\<open>_cols_pos\<close>,
  \<^verbatim>\<open>_rows_pos\<close> (\<^verbatim>\<open>None\<close> in the class, lines 438-439). \<^verbatim>\<open>view_opts\<close>,
  \<^verbatim>\<open>_changed_views\<close>, \<^verbatim>\<open>remove_view\<close> and \<^verbatim>\<open>clear_layout\<close> belong to the base class
  \<^verbatim>\<open>RecycleLayout\<close>, which is not part of the source file: the first two are fields the
  host fills, the calls of \<^verbatim>\<open>remove_view(widget, index)\<close> are recorded in
  \<open>removed_views\<close>, and \<^verbatim>\<open>clear_layout\<close> touches none of the fields kept here.
\<close>

record rgrid = grid +
  view_opts :: "widget list"
  changed_views :: "change list option"
  p_cols_count :: "histogram list option"
  p_rows_count :: "histogram list option"
  p_cols_pos :: "num list option"
  p_rows_pos :: "num list option"
  removed_views :: "(nat \<times> nat) list"

text \<open>\<^verbatim>\<open>RecycleGridLayout.on_children\<close>, lines 445-446.\<close>

definition recycle_on_children :: "rgrid \<Rightarrow> widget list \<Rightarrow> error + unit" where
  "recycle_on_children s val = Inr ()"

text \<open>Lines 459-462: the histogram of a slot counts the length of an item without a hint
  on the axis.\<close>

definition count_axis :: "histogram list \<Rightarrow> nat \<Rightarrow> num option \<Rightarrow> num \<Rightarrow> error + histogram list" where
  "count_axis counts k hint len =
     (case hint of
        Some h \<Rightarrow> Inr counts
      | None \<Rightarrow>
          (case list_get counts k of
             Inl e \<Rightarrow> Inl e
           | Inr m \<Rightarrow> Inr (counts[k := hist_add m len 1])))"

text \<open>The loop of lines 456-473 from index \<open>i\<close> on: the two histogram updates, then the
  body of the static grid's loop.\<close>

fun recycle_fill_loop ::
  "nat \<Rightarrow> nat \<Rightarrow> widget list \<Rightarrow> slots \<times> histogram list \<times> histogram list
     \<Rightarrow> error + slots \<times> histogram list \<times> histogram list"
where
  "recycle_fill_loop n_cols i [] st = Inr st"
| "recycle_fill_loop n_cols i (opt # rest) (st, cols_count, rows_count) =
     (if n_cols = 0 then Inl ZeroDivisionError
      else
        (case count_axis cols_count (i mod n_cols) (fst (size_hint opt)) (fst (wsize opt)) of
           Inl e \<Rightarrow> Inl e
         | Inr cols_count' \<Rightarrow>
             (case count_axis rows_count (i div n_cols) (snd (size_hint opt)) (snd (wsize opt)) of
                Inl e \<Rightarrow> Inl e
              | Inr rows_count' \<Rightarrow>
                  (case fill_child n_cols i opt st of
                     Inl e \<Rightarrow> Inl e
                   | Inr st' \<Rightarrow>
                       recycle_fill_loop n_cols (i + 1) rest (st', cols_count', rows_count')))))"

text \<open>\<^verbatim>\<open>RecycleGridLayout._fill_rows_cols_sizes\<close>, lines 448-473. It is only called
  after \<^verbatim>\<open>_init_rows_cols_sizes\<close> has assigned the four lists.\<close>

definition recycle_fill_rows_cols_sizes :: "rgrid \<Rightarrow> error + rgrid" where
  "recycle_fill_rows_cols_sizes s =
     (case p_cols_sh s of None \<Rightarrow> Inl AttributeError | Some cols_sh \<Rightarrow>
      (case p_rows_sh s of None \<Rightarrow> Inl AttributeError | Some rows_sh \<Rightarrow>
      (case p_cols s of None \<Rightarrow> Inl TypeError | Some cs \<Rightarrow>
      (case p_rows s of None \<Rightarrow> Inl TypeError | Some rs \<Rightarrow>
        (case recycle_fill_loop (length cs) 0 (view_opts s)
                ((cs, cols_sh, rs, rows_sh),
                 replicate (length cs) Map.empty, replicate (length rs) Map.empty) of
           Inl e \<Rightarrow> Inl e
         | Inr ((cs', cols_sh', rs', rows_sh'), cols_count, rows_count) \<Rightarrow>
             Inr (s\<lparr>p_cols := Some cs', p_rows := Some rs',
                    p_cols_sh := Some cols_sh', p_rows_sh := Some rows_sh',
                    p_cols_count := Some cols_count, p_rows_count := Some rows_count\<rparr>))))))"

text \<open>
  Lines 492-499 (and 502-509 for the row): the slot has size \<open>col_w\<close>, the item's length
  goes from \<open>w\<close> to \<open>wn\<close>. The boolean is true where the code returns \<^verbatim>\<open>True\<close>
  (line 497), with the histogram as it is at that moment.
\<close>

definition update_axis :: "histogram \<Rightarrow> num \<Rightarrow> num \<Rightarrow> num \<Rightarrow> bool \<times> histogram" where
  "update_axis m col_w w wn =
     (let m1 = hist_add m w (- 1);
          m2 = hist_add m1 wn 1;
          was_last_w = (hist_count m2 w \<le> 0)
      in if (was_last_w \<and> col_w = w) \<or> wn > col_w then (True, m2)
         else if was_last_w then (False, m2(w := None))
         else (False, m2))"

text \<open>Lines 491-499 with the accesses \<^verbatim>\<open>cols[col]\<close> and \<^verbatim>\<open>cols_count[col]\<close>: nothing
  happens when the length did not change.\<close>

definition update_slot ::
  "num list option \<Rightarrow> histogram list \<Rightarrow> nat \<Rightarrow> num \<Rightarrow> num \<Rightarrow> error + bool \<times> histogram list"
where
  "update_slot sizes counts k w wn =
     (if w = wn then Inr (False, counts)
      else (case sizes of
              None \<Rightarrow> Inl TypeError
            | Some cs \<Rightarrow>
                (case list_get cs k of
                   Inl e \<Rightarrow> Inl e
                 | Inr col_w \<Rightarrow>
                     (case list_get counts k of
                        Inl e \<Rightarrow> Inl e
                      | Inr m \<Rightarrow>
                          (case update_axis m col_w w wn of
                             (ret, m') \<Rightarrow> Inr (ret, counts[k := m']))))))"

text \<open>What the loop of \<^verbatim>\<open>_update_rows_cols_sizes\<close> changes: \<^verbatim>\<open>cols_count\<close>,
  \<^verbatim>\<open>rows_count\<close> and the recorded calls of \<^verbatim>\<open>remove_view\<close>.\<close>

type_synonym counts = "histogram list \<times> histogram list \<times> (nat \<times> nat) list"

text \<open>The loop body, lines 483-509, for one entry of \<^verbatim>\<open>changed\<close>. The boolean is true
  where the code returns \<^verbatim>\<open>True\<close>.\<close>

definition update_change ::
  "num list option \<Rightarrow> num list option \<Rightarrow> counts \<Rightarrow> change \<Rightarrow> error + bool \<times> counts"
where
  "update_change cs rs st c =
     (case st of (cols_count, rows_count, removed) \<Rightarrow>
      (case ch_size c of (w, h) \<Rightarrow>
      (case ch_new_size c of (wn, hn) \<Rightarrow>
        if ch_sh c \<noteq> ch_new_sh c then Inr (True, st)
        else if (fst (ch_sh c) \<noteq> None \<and> w \<noteq> wn) \<or> (snd (ch_sh c) \<noteq> None \<and> h \<noteq> hn)
        then Inr (False, cols_count, rows_count, removed @ [(ch_widget c, ch_index c)])
        else if length cols_count = 0 then Inl ZeroDivisionError
        else
          (case update_slot cs cols_count (ch_index c mod length cols_count) w wn of
             Inl e \<Rightarrow> Inl e
           | Inr (True, cols_count') \<Rightarrow> Inr (True, cols_count', rows_count, removed)
           | Inr (False, cols_count') \<Rightarrow>
               (case update_slot rs rows_count (ch_index c div length cols_count) h hn of
                  Inl e \<Rightarrow> Inl e
                | Inr (ret, rows_count') \<Rightarrow> Inr (ret, cols_count', rows_count', removed))))))"

text \<open>The loop of line 482 with its two exits: \<^verbatim>\<open>return True\<close> inside, \<^verbatim>\<open>return False\<close>
  (line 511) after the last entry.\<close>

fun update_loop ::
  "num list option \<Rightarrow> num list option \<Rightarrow> counts \<Rightarrow> change list \<Rightarrow> error + bool \<times> counts"
where
  "update_loop cs rs st [] = Inr (False, st)"
| "update_loop cs rs st (c # rest) =
     (case update_change cs rs st c of
        Inl e \<Rightarrow> Inl e
      | Inr (True, st') \<Rightarrow> Inr (True, st')
      | Inr (False, st') \<Rightarrow> update_loop cs rs st' rest)"

text \<open>\<^verbatim>\<open>_update_rows_cols_sizes\<close>, lines 475-511.\<close>

definition update_rows_cols_sizes :: "rgrid \<Rightarrow> change list \<Rightarrow> error + bool \<times> rgrid" where
  "update_rows_cols_sizes s changed =
     (case p_cols_count s of None \<Rightarrow> Inl AttributeError | Some cols_count \<Rightarrow>
      (case p_rows_count s of None \<Rightarrow> Inl AttributeError | Some rows_count \<Rightarrow>
        (case update_loop (p_cols s) (p_rows s) (cols_count, rows_count, removed_views s) changed of
           Inl e \<Rightarrow> Inl e
         | Inr (ret, cols_count', rows_count', removed') \<Rightarrow>
             Inr (ret, s\<lparr>p_cols_count := Some cols_count', p_rows_count := Some rows_count',
                         removed_views := removed'\<rparr>))))"

text \<open>Lines 541-547: the entry of \<^verbatim>\<open>view_opts\<close> gets the cell's position, and the cell's
  length on every axis on which it has a hint.\<close>

definition place_opt :: "widget \<Rightarrow> num \<times> num \<Rightarrow> num \<times> num \<Rightarrow> widget" where
  "place_opt opt p sz =
     opt\<lparr>pos := p,
         wsize := (if fst (size_hint opt) = None then fst (wsize opt) else fst sz,
                   if snd (size_hint opt) = None then snd (wsize opt) else snd sz)\<rparr>"

text \<open>The loop of lines 539-547: \<^verbatim>\<open>opt = view_opts[n - widget - 1]\<close>.\<close>

fun place_opts :: "nat \<Rightarrow> cell list \<Rightarrow> widget list \<Rightarrow> error + widget list" where
  "place_opts n [] opts = Inr opts"
| "place_opts n ((i, p, sz) # rest) opts =
     (case list_get opts (nat (int n - i - 1)) of
        Inl e \<Rightarrow> Inl e
      | Inr opt \<Rightarrow> place_opts n rest (opts[nat (int n - i - 1) := place_opt opt p sz]))"

text \<open>Lines 557-559: the values assigned to \<^verbatim>\<open>cols_pos[1]\<close>, \<^verbatim>\<open>cols_pos[2]\<close>, ...\<close>

fun cols_pos_loop :: "num \<Rightarrow> num \<Rightarrow> num list \<Rightarrow> num list" where
  "cols_pos_loop lst spacing_x [] = []"
| "cols_pos_loop lst spacing_x (v # rest) =
     lst # cols_pos_loop (lst + (v + spacing_x)) spacing_x rest"

text \<open>Lines 564-566: the values assigned to \<^verbatim>\<open>rows_pos[n - 2]\<close>, \<^verbatim>\<open>rows_pos[n - 3]\<close>, ...\<close>

fun rows_pos_loop :: "num \<Rightarrow> num \<Rightarrow> num list \<Rightarrow> num list" where
  "rows_pos_loop lst spacing_y [] = []"
| "rows_pos_loop lst spacing_y (v # rest) =
     (lst - (spacing_y + v)) # rows_pos_loop (lst - (spacing_y + v)) spacing_y rest"

text \<open>
  Lines 549-566. Every entry of the two lists is assigned, so they are built directly:
  \<^verbatim>\<open>cols_pos\<close> from index \<open>0\<close> upwards, \<^verbatim>\<open>rows_pos\<close> from its last index downwards.
  \<^verbatim>\<open>cols_pos[0]\<close> on an empty list raises \<^verbatim>\<open>IndexError\<close>.
\<close>

definition boundaries :: "rgrid \<Rightarrow> error + rgrid" where
  "boundaries s =
     (case spacing s of (spacing_x, spacing_y) \<Rightarrow>
      (case p_cols s of None \<Rightarrow> Inl TypeError | Some cs \<Rightarrow>
      (case p_rows s of None \<Rightarrow> Inl TypeError | Some rs \<Rightarrow>
      (case cs of [] \<Rightarrow> Inl IndexError | c0 # cs1 \<Rightarrow>
      (case rs of [] \<Rightarrow> Inl IndexError | r0 # rs1 \<Rightarrow>
        (let last_x = self_x s + fst (padding s) + c0 + spacing_x / 2;
             last_y = self_y s + height s - fst (snd (padding s)) - r0 - spacing_y / 2
         in Inr (s\<lparr>p_cols_pos := Some (self_x s # cols_pos_loop last_x spacing_x cs1),
                   p_rows_pos := Some (rev (last_y # rows_pos_loop last_y spacing_y rs1))\<rparr>)))))))"

text \<open>Lines 528-566 of \<^verbatim>\<open>compute_layout\<close>: the full pass over \<open>n\<close> data items.\<close>

definition full_layout :: "rgrid \<Rightarrow> nat \<Rightarrow> error + rgrid" where
  "full_layout s n =
     (case init_rows_cols_sizes s n of
        Inl e \<Rightarrow> Inl e
      | Inr (False, s1) \<Rightarrow>
          (case padding s1 of (l, t, r, b) \<Rightarrow>
             Inr (s1\<lparr>p_cols := None, minimum_size := (l + r, t + b)\<rparr>))
      | Inr (True, s1) \<Rightarrow>
          (case recycle_fill_rows_cols_sizes s1 of
             Inl e \<Rightarrow> Inl e
           | Inr s2 \<Rightarrow>
               (case update_minimum_size s2 of
                  Inl e \<Rightarrow> Inl e
                | Inr s3 \<Rightarrow>
                    (case finalize_rows_cols_sizes s3 of
                       Inl e \<Rightarrow> Inl e
                     | Inr s4 \<Rightarrow>
                         (case iterate_layout s4 n of
                            Inl e \<Rightarrow> Inl e
                          | Inr cells \<Rightarrow>
                              (case place_opts n cells (view_opts s4) of
                                 Inl e \<Rightarrow> Inl e
                               | Inr opts \<Rightarrow> boundaries (s4\<lparr>view_opts := opts\<rparr>)))))))"

text \<open>
  \<^verbatim>\<open>compute_layout\<close>, lines 513-566, after the base class's \<^verbatim>\<open>compute_layout\<close> of line 514
  (not part of the source file) has filled \<^verbatim>\<open>view_opts\<close> and \<^verbatim>\<open>_changed_views\<close>. \<open>n\<close> is
  \<^verbatim>\<open>len(data)\<close>; nothing else of \<^verbatim>\<open>data\<close> or \<^verbatim>\<open>flags\<close> is read.
\<close>

definition compute_layout :: "rgrid \<Rightarrow> nat \<Rightarrow> error + rgrid" where
  "compute_layout s n =
     (if (case get_max_widgets s of None \<Rightarrow> False | Some smax \<Rightarrow> smax \<noteq> 0 \<and> n > smax)
      then Inl GridLayoutException
      else (case changed_views s of
              None \<Rightarrow> Inr s
            | Some changed \<Rightarrow>
                if changed = [] then full_layout s n
                else (case update_rows_cols_sizes s changed of
                        Inl e \<Rightarrow> Inl e
                      | Inr (False, s') \<Rightarrow> Inr s'
                      | Inr (True, s') \<Rightarrow> full_layout s' n)))"

text \<open>The scans of lines 583-586 and 592-595: count the boundaries up to the first one
  beyond the coordinate.\<close>

fun scan_pos :: "num \<Rightarrow> num list \<Rightarrow> int \<Rightarrow> int" where
  "scan_pos x [] ix = ix"
| "scan_pos x (v # rest) ix = (if x < v then ix else scan_pos x rest (ix + 1))"

text \<open>Lines 579-586 (and 588-595): the slot of a coordinate. \<open>sizes\<close> is \<^verbatim>\<open>self._cols\<close>,
  whose length is taken only when the coordinate is beyond the last boundary.\<close>

definition slot_at :: "num \<Rightarrow> num list \<Rightarrow> num list option \<Rightarrow> error + int" where
  "slot_at x col_pos sizes =
     (if x \<ge> last col_pos
      then (case sizes of None \<Rightarrow> Inl TypeError | Some cs \<Rightarrow> Inr (int (length cs) - 1))
      else Inr (scan_pos x (tl col_pos) 0))"

text \<open>\<^verbatim>\<open>get_view_index_at\<close>, lines 568-599.\<close>

definition get_view_index_at :: "rgrid \<Rightarrow> num \<times> num \<Rightarrow> error + int" where
  "get_view_index_at s p =
     (case p_cols_pos s of None \<Rightarrow> Inr 0 | Some col_pos \<Rightarrow>
      (case p_rows_pos s of None \<Rightarrow> Inr 0 | Some row_pos \<Rightarrow>
        if col_pos = [] \<or> row_pos = [] then Inr 0
        else
          (case slot_at (fst p) col_pos (p_cols s) of
             Inl e \<Rightarrow> Inl e
           | Inr ix \<Rightarrow>
               (case slot_at (snd p) row_pos (p_rows s) of
                  Inl e \<Rightarrow> Inl e
                | Inr iy \<Rightarrow>
                    (case p_rows s of None \<Rightarrow> Inl TypeError | Some rs \<Rightarrow>
                     (case p_cols s of None \<Rightarrow> Inl TypeError | Some cs \<Rightarrow>
                        Inr ((int (length rs) - iy - 1) * int (length cs) + ix)))))))"

text \<open>A recycle grid as \<^verbatim>\<open>__init__\<close> leaves it.\<close>

definition new_rgrid :: rgrid where
  "new_rgrid =
     grid.extend new_grid
       \<lparr>view_opts = [], changed_views = None, p_cols_count = None, p_rows_count = None,
        p_cols_pos = None, p_rows_pos = None, removed_views = []\<rparr>"

section \<open>Scenarios\<close>

text \<open>The grid of the first scenario: \<^verbatim>\<open>cols=2\<close>, a container of size \<open>(200, 100)\<close> at the
  origin, no padding, no spacing, and four children, \<open>c0\<close> added first. The widget base
  class (not part of the source file) inserts an added child at the front of
  \<^verbatim>\<open>children\<close>; the flow order is \<^verbatim>\<open>reversed(self.children)\<close>, line 322.\<close>

definition scenario_2x2 :: "widget \<Rightarrow> widget \<Rightarrow> widget \<Rightarrow> widget \<Rightarrow> grid" where
  "scenario_2x2 c0 c1 c2 c3 =
     new_grid\<lparr>cols := Some 2, width := 200, height := 100, children := [c3, c2, c1, c0]\<rparr>"

text \<open>Two grids with forced column widths (default 30, column 1 overridden to 70) that
  differ only in their children.\<close>

definition forced_grid :: "widget list \<Rightarrow> grid" where
  "forced_grid ws =
     new_grid\<lparr>cols := Some 2, col_force_default := True, col_default_width := 30,
              cols_minimum := [(1, 70)], children := ws\<rparr>"

text \<open>A grid of one column whose only child has a fixed size \<open>(50, 50)\<close>, in a container
  of size \<open>(100, 100)\<close>.\<close>

definition fixed_child_grid :: grid where
  "fixed_child_grid = new_grid\<lparr>cols := Some 1, children := [new_widget (None, None) (50, 50)]\<rparr>"

text \<open>A grid with \<^verbatim>\<open>cols=1\<close> and one child of size hint \<open>(1, 1)\<close> in a container of size
  \<open>(100, 100)\<close>, and the grid a layout pass makes of it.\<close>

definition one_child_grid :: grid where
  "one_child_grid = new_grid\<lparr>cols := Some 1, children := [new_widget (Some 1, Some 1) (10, 10)]\<rparr>"

definition laid_out_grid :: grid where
  "laid_out_grid =
     new_grid\<lparr>cols := Some 1,
              children := [\<lparr>size_hint = (Some 1, Some 1), wsize = (100, 100), pos = (0, 0)\<rparr>],
              p_cols := Some [100], p_rows := Some [100],
              p_cols_sh := Some [Some 1], p_rows_sh := Some [Some 1]\<rparr>"

text \<open>The host then unsets \<^verbatim>\<open>cols\<close> and widens the container to 200: neither \<^verbatim>\<open>cols\<close> nor
  \<^verbatim>\<open>rows\<close> is set, and \<^verbatim>\<open>_cols\<close>, \<^verbatim>\<open>_rows\<close> still hold what the last pass left.\<close>

definition stale_grid :: grid where
  "stale_grid = laid_out_grid\<lparr>cols := None, width := 200\<rparr>"

text \<open>What the next pass, and the one after it, make of \<open>stale_grid\<close>.\<close>

definition stale_pass_1 :: grid where
  "stale_pass_1 =
     stale_grid\<lparr>minimum_size := (100, 100), p_cols := Some [200],
                 children := [\<lparr>size_hint = (Some 1, Some 1), wsize = (200, 100), pos = (0, 0)\<rparr>]\<rparr>"

definition stale_pass_2 :: grid where
  "stale_pass_2 = stale_pass_1\<lparr>minimum_size := (200, 100)\<rparr>"

text \<open>A grid with \<^verbatim>\<open>cols=2\<close>, one child of size hint \<open>(1, 1)\<close> and the given
  \<^verbatim>\<open>cols_minimum\<close>.\<close>

definition override_grid :: "(int \<times> num) list \<Rightarrow> grid" where
  "override_grid m =
     new_grid\<lparr>cols := Some 2, cols_minimum := m,
              children := [new_widget (Some 1, Some 1) (10, 10)]\<rparr>"

text \<open>
  Modelled from the spec: the host's mutation of the item set. The widget base class and
  the property dispatch that call \<^verbatim>\<open>on_children\<close> are not part of the source file. The
  spec (sections 6 and 7) has the capacity hook invoked on the mutation, and a mutation
  the hook rejects leaves the collection unchanged. The result is the raised exception,
  if any, and the grid after the call.
\<close>

definition set_children :: "grid \<Rightarrow> widget list \<Rightarrow> error option \<times> grid" where
  "set_children s val =
     (case on_children s val of
        Inl e \<Rightarrow> (Some e, s)
      | Inr u \<Rightarrow> (None, s\<lparr>children := val\<rparr>))"

text \<open>A recycle grid with \<^verbatim>\<open>cols=2\<close>, \<^verbatim>\<open>rows=2\<close> whose host has handed it five data items
  (\<^verbatim>\<open>_changed_views\<close> empty: everything is to be laid out).\<close>

definition full_rgrid :: rgrid where
  "full_rgrid =
     new_rgrid\<lparr>cols := Some 2, rows := Some 2,
               view_opts := replicate 5 (new_widget (Some 1, Some 1) (10, 10)),
               changed_views := Some []\<rparr>"

text \<open>A recycle grid with \<^verbatim>\<open>cols=2\<close> in a container of size \<open>(200, 100)\<close> and three data
  items: the second row is only half filled.\<close>

definition three_item_rgrid :: rgrid where
  "three_item_rgrid =
     new_rgrid\<lparr>cols := Some 2, width := 200, height := 100,
               view_opts := replicate 3 (new_widget (Some 1, Some 1) (10, 10)),
               changed_views := Some []\<rparr>"

text \<open>The state a completed pass of the recycle grid leaves: \<^verbatim>\<open>_cols\<close> and \<^verbatim>\<open>_rows\<close> are
  the non-empty lists \<open>cs\<close> and \<open>rs\<close>, and \<^verbatim>\<open>_cols_pos\<close>, \<^verbatim>\<open>_rows_pos\<close> have one boundary
  per column and per row.\<close>

definition grid_shaped :: "rgrid \<Rightarrow> num list \<Rightarrow> num list \<Rightarrow> bool" where
  "grid_shaped s cs rs =
     (cs \<noteq> [] \<and> rs \<noteq> [] \<and> p_cols s = Some cs \<and> p_rows s = Some rs
      \<and> map_option length (p_cols_pos s) = Some (length cs)
      \<and> map_option length (p_rows_pos s) = Some (length rs))"

text \<open>What the fill loop reads of a child: its size hint, and its length on every axis on
  which it has no hint.\<close>

definition demand :: "widget \<Rightarrow> (num option \<times> num option) \<times> num option \<times> num option" where
  "demand c =
     (size_hint c,
      if fst (size_hint c) = None then Some (fst (wsize c)) else None,
      if snd (size_hint c) = None then Some (snd (wsize c)) else None)"

section \<open>The incremental update in the spec's words\<close>

text \<open>
  Section 4.5 of the spec describes the incremental update on the counts of a histogram:
  how many live items claim each fixed length in a slot. The definitions of this section
  follow that description, not the code; they are compared with
  \<^verbatim>\<open>_update_rows_cols_sizes\<close> below. A \<open>tally\<close> is what \<open>hist_count\<close> reads off a
  histogram.
\<close>

type_synonym tally = "num \<Rightarrow> int"

text \<open>"Decrement old value, increment new value."\<close>

definition spec_patch :: "tally \<Rightarrow> num \<Rightarrow> num \<Rightarrow> tally" where
  "spec_patch f old new =
     (\<lambda>k. f k - (if k = old then 1 else 0) + (if k = new then 1 else 0))"

text \<open>The two triggers of a changed fixed length: the old length equals the slot's
  current base size and the item is the last one claiming it, or the new length exceeds
  the slot's base size.\<close>

definition spec_forces_recompute :: "num \<Rightarrow> tally \<Rightarrow> num \<Rightarrow> num \<Rightarrow> bool" where
  "spec_forces_recompute base f old new = ((old = base \<and> f old \<le> 1) \<or> new > base)"

text \<open>The item changed its length on an axis on which it carries a stretch hint: the code
  hands such an item to \<^verbatim>\<open>remove_view\<close> and leaves the histograms alone.\<close>

definition spec_handed_back :: "change \<Rightarrow> bool" where
  "spec_handed_back c =
     ((fst (ch_sh c) \<noteq> None \<and> fst (ch_size c) \<noteq> fst (ch_new_size c))
      \<or> (snd (ch_sh c) \<noteq> None \<and> snd (ch_size c) \<noteq> snd (ch_new_size c)))"

text \<open>One axis of one item triggers nothing: the length is unchanged, or the slot \<open>k\<close>
  exists, the old length is claimed in its tally, and neither trigger fires.\<close>

definition spec_axis_quiet :: "num list \<Rightarrow> tally list \<Rightarrow> nat \<Rightarrow> num \<Rightarrow> num \<Rightarrow> bool" where
  "spec_axis_quiet sizes ts k old new =
     (old = new
      \<or> (k < length sizes \<and> k < length ts \<and> 1 \<le> (ts ! k) old
          \<and> \<not> spec_forces_recompute (sizes ! k) (ts ! k) old new))"

definition spec_axis_patch :: "tally list \<Rightarrow> nat \<Rightarrow> num \<Rightarrow> num \<Rightarrow> tally list" where
  "spec_axis_patch ts k old new = (if old = new then ts else ts[k := spec_patch (ts ! k) old new])"

text \<open>One changed item triggers nothing: its size hint is unchanged and, unless it is
  handed back, both its axes are quiet. The cell of item \<open>i\<close> is
  \<open>(i div cols, i mod cols)\<close>.\<close>

definition spec_quiet :: "num list \<Rightarrow> num list \<Rightarrow> tally list \<times> tally list \<Rightarrow> change \<Rightarrow> bool" where
  "spec_quiet cs rs t c =
     (ch_sh c = ch_new_sh c
      \<and> (spec_handed_back c
          \<or> (fst t \<noteq> []
              \<and> spec_axis_quiet cs (fst t) (ch_index c mod length (fst t))
                   (fst (ch_size c)) (fst (ch_new_size c))
              \<and> spec_axis_quiet rs (snd t) (ch_index c div length (fst t))
                   (snd (ch_size c)) (snd (ch_new_size c)))))"

text \<open>The tallies after one changed item.\<close>

definition spec_patched :: "tally list \<times> tally list \<Rightarrow> change \<Rightarrow> tally list \<times> tally list" where
  "spec_patched t c =
     (if spec_handed_back c then t
      else (spec_axis_patch (fst t) (ch_index c mod length (fst t))
              (fst (ch_size c)) (fst (ch_new_size c)),
            spec_axis_patch (snd t) (ch_index c div length (fst t))
              (snd (ch_size c)) (snd (ch_new_size c))))"

text \<open>No item of the batch triggers a full recompute, each item seen against the tallies
  as the items before it have patched them.\<close>

fun spec_quiet_batch :: "num list \<Rightarrow> num list \<Rightarrow> tally list \<times> tally list \<Rightarrow> change list \<Rightarrow> bool" where
  "spec_quiet_batch cs rs t [] = True"
| "spec_quiet_batch cs rs t (c # rest) =
     (spec_quiet cs rs t c \<and> spec_quiet_batch cs rs (spec_patched t c) rest)"

text \<open>The views handed to \<^verbatim>\<open>remove_view\<close> by a batch.\<close>

definition spec_removed :: "change list \<Rightarrow> (nat \<times> nat) list" where
  "spec_removed changed = map (\<lambda>c. (ch_widget c, ch_index c)) (filter spec_handed_back changed)"

text \<open>A recycle grid of one column in a container of size \<open>(50, 20)\<close> with two items of
  fixed widths 50 and 30, and what a full pass makes of it: one column of width 50, two
  rows of height 10, and a column histogram that counts one item of width 50 and one of
  width 30.\<close>

definition two_item_rgrid :: rgrid where
  "two_item_rgrid =
     new_rgrid\<lparr>cols := Some 1, width := 50, height := 20,
               view_opts := [new_widget (None, Some 1) (50, 10), new_widget (None, Some 1) (30, 10)],
               changed_views := Some []\<rparr>"

definition counted_rgrid :: rgrid where
  "counted_rgrid =
     two_item_rgrid\<lparr>minimum_size := (50, 0),
               p_cols := Some [50], p_rows := Some [10, 10],
               p_cols_sh := Some [None], p_rows_sh := Some [Some 1, Some 1],
               view_opts := [\<lparr>size_hint = (None, Some 1), wsize = (50, 10), pos = (0, 10)\<rparr>,
                             \<lparr>size_hint = (None, Some 1), wsize = (30, 10), pos = (0, 0)\<rparr>],
               p_cols_count := Some [Map.empty(50 \<mapsto> 1, 30 \<mapsto> 1)],
               p_rows_count := Some [Map.empty, Map.empty],
               p_cols_pos := Some [0], p_rows_pos := Some [0, 10]\<rparr>"

text \<open>Two changes of item 1: its width shrinks from 30 to 20; its vertical hint goes
  from 1 to 2.\<close>

definition shrink_change :: change where
  "shrink_change =
     \<lparr>ch_index = 1, ch_widget = 7, ch_size = (30, 10), ch_new_size = (20, 10),
      ch_sh = (None, Some 1), ch_new_sh = (None, Some 1)\<rparr>"

definition rehint_change :: change where
  "rehint_change =
     \<lparr>ch_index = 1, ch_widget = 7, ch_size = (30, 10), ch_new_size = (30, 10),
      ch_sh = (None, Some 1), ch_new_sh = (None, Some 2)\<rparr>"

section \<open>Evaluation lemmas\<close>

lemma nmax_two [simp]: "nmax [Some a, Some b] = Inr (max a b)" "nmax [None, Some b] = Inr b"
  by (simp_all add: nmax_def max.commute)

lemma replicate_two: "replicate 2 x = [x, x]"
  by (simp add: numeral_2_eq_2)

lemma upt_two: "[0..<2] = [0, 1]"
  by (simp add: numeral_2_eq_2)

lemma ceil_div_int: "ceil_div n d = nat (- (- int n div int d))"
  using ceiling_divide_eq_div [of "int n" "int d", where ?'a = rat]
  by (simp add: ceil_div_def)

lemmas layout_defs =
  do_layout_def init_rows_cols_sizes_def resolve_shape_def
  ceil_div_int fill_rows_cols_sizes_def fill_child_def fill_axis_def list_get_def list_set_def
  update_minimum_size_def finalize_rows_cols_sizes_def finalize_cols_def finalize_rows_def
  stretch_weight_def iterate_layout_def top_def place_child_def

section \<open>The 2 x 2 scenario\<close>

text \<open>
  Claim C3. With \<^verbatim>\<open>cols=2\<close>, four items of size hint \<open>(1, 1)\<close>, a container of size
  \<open>(200, 100)\<close> at the origin, no padding and no spacing, a layout pass gives every item
  the size \<open>(100, 50)\<close> and puts items 0, 1, 2, 3 (in flow order) at \<open>(0, 50)\<close>,
  \<open>(100, 50)\<close>, \<open>(0, 0)\<close>, \<open>(100, 0)\<close>: flow row 0 is on top.
\<close>

theorem scenario_2x2_layout:
  assumes "size_hint c0 = (Some 1, Some 1)" and "size_hint c1 = (Some 1, Some 1)"
    and "size_hint c2 = (Some 1, Some 1)" and "size_hint c3 = (Some 1, Some 1)"
  shows "\<exists>s'. do_layout (scenario_2x2 c0 c1 c2 c3) = Inr s'
     \<and> map wsize (rev (children s')) = [(100, 50), (100, 50), (100, 50), (100, 50)]
     \<and> map pos (rev (children s')) = [(0, 50), (100, 50), (0, 0), (100, 0)]"
  using assms
  by (simp add: scenario_2x2_def new_grid_def layout_defs replicate_two upt_two
      case_prod_unfold mod_Suc div_Suc)

theorem scenario_2x2_layout_witness:
  "\<exists>s'. do_layout (scenario_2x2 (new_widget (Some 1, Some 1) (30, 40))
            (new_widget (Some 1, Some 1) (30, 40)) (new_widget (Some 1, Some 1) (30, 40))
            (new_widget (Some 1, Some 1) (30, 40))) = Inr s'
     \<and> map wsize (rev (children s')) = [(100, 50), (100, 50), (100, 50), (100, 50)]
     \<and> map pos (rev (children s')) = [(0, 50), (100, 50), (0, 0), (100, 0)]"
  by (rule scenario_2x2_layout) (simp_all add: new_widget_def)

section \<open>The resolved shape\<close>

lemma apply_minimum_length: "apply_minimum m xs = Inr ys \<Longrightarrow> length ys = length xs"
  by (induction m xs rule: apply_minimum.induct)
     (auto simp: list_set_def Let_def split: if_splits sum.splits)

lemma init_shape:
  assumes "init_rows_cols_sizes s n = Inr (True, s')"
  shows "\<exists>cs rs. p_cols s' = Some cs \<and> p_rows s' = Some rs
           \<and> resolve_shape (cols s) (rows s) n = Some (length cs, length rs)"
  using assms
  by (auto simp: init_rows_cols_sizes_def split: option.splits sum.splits prod.splits
      dest!: apply_minimum_length)

text \<open>
  Claim C4. For \<open>n \<ge> 1\<close> items: with \<^verbatim>\<open>cols\<close> set to \<open>k \<ge> 1\<close> and \<^verbatim>\<open>rows\<close> unset
  (\<^verbatim>\<open>None\<close>) the resolved row count is \<open>ceil (n / k)\<close>; with \<^verbatim>\<open>rows\<close> set and \<^verbatim>\<open>cols\<close>
  unset the resolved column count is \<open>ceil (n / k)\<close>; every resolved count is at least 1;
  and the lists \<^verbatim>\<open>_cols\<close> and \<^verbatim>\<open>_rows\<close> that \<^verbatim>\<open>_init_rows_cols_sizes\<close> builds have the
  resolved lengths.
\<close>

theorem resolved_counts:
  assumes "1 \<le> n" and "1 \<le> k"
  shows "resolve_shape (Some k) None n = Some (k, nat \<lceil>rat_of_nat n / rat_of_nat k\<rceil>)
     \<and> resolve_shape None (Some k) n = Some (nat \<lceil>rat_of_nat n / rat_of_nat k\<rceil>, k)
     \<and> (\<forall>cs rs c r. resolve_shape cs rs n = Some (c, r) \<longrightarrow> 1 \<le> c \<and> 1 \<le> r)
     \<and> (\<forall>s s'. init_rows_cols_sizes s n = Inr (True, s') \<longrightarrow>
           (\<exists>cs rs. p_cols s' = Some cs \<and> p_rows s' = Some rs
              \<and> resolve_shape (cols s) (rows s) n = Some (length cs, length rs)))"
proof -
  have ceil_pos: "1 \<le> nat \<lceil>rat_of_nat n / rat_of_nat k\<rceil>"
  proof -
    have "0 < rat_of_nat n / rat_of_nat k"
      using assms by simp
    then have "0 < \<lceil>rat_of_nat n / rat_of_nat k\<rceil>"
      by (simp only: of_int_0 less_ceiling_iff)
    then show ?thesis
      by linarith
  qed
  have by_cols: "resolve_shape (Some k) None n = Some (k, nat \<lceil>rat_of_nat n / rat_of_nat k\<rceil>)"
    using assms ceil_pos by (simp add: resolve_shape_def ceil_div_def max_def)
  have by_rows: "resolve_shape None (Some k) n = Some (nat \<lceil>rat_of_nat n / rat_of_nat k\<rceil>, k)"
    using assms ceil_pos by (simp add: resolve_shape_def ceil_div_def max_def)
  have floored: "\<forall>cs rs c r. resolve_shape cs rs n = Some (c, r) \<longrightarrow> 1 \<le> c \<and> 1 \<le> r"
    by (auto simp: resolve_shape_def split: if_splits option.splits)
  from by_cols by_rows floored init_shape show ?thesis
    by blast
qed

theorem resolved_counts_witness:
  "resolve_shape (Some 2) None 5 = Some (2, 3) \<and> resolve_shape None (Some 2) 5 = Some (3, 2)
   \<and> init_rows_cols_sizes (new_grid\<lparr>cols := Some 2\<rparr>) 5
       = Inr (True, new_grid\<lparr>cols := Some 2, p_cols := Some [0, 0], p_rows := Some [0, 0, 0],
                p_cols_sh := Some [None, None], p_rows_sh := Some [None, None, None]\<rparr>)"
proof -
  have "(1::nat) \<le> 5" and "(1::nat) \<le> 2"
    by simp_all
  from resolved_counts [OF this]
  have "resolve_shape (Some 2) None 5 = Some (2, nat \<lceil>rat_of_nat 5 / rat_of_nat 2\<rceil>)"
    and "resolve_shape None (Some 2) 5 = Some (nat \<lceil>rat_of_nat 5 / rat_of_nat 2\<rceil>, 2)"
    by blast+
  moreover have three: "\<lceil>rat_of_nat 5 / rat_of_nat 2\<rceil> = 3"
    by (rule ceiling_unique) simp_all
  moreover have "init_rows_cols_sizes (new_grid\<lparr>cols := Some 2\<rparr>) 5
       = Inr (True, new_grid\<lparr>cols := Some 2, p_cols := Some [0, 0], p_rows := Some [0, 0, 0],
                p_cols_sh := Some [None, None], p_rows_sh := Some [None, None, None]\<rparr>)"
    using three
    by (simp add: init_rows_cols_sizes_def resolve_shape_def ceil_div_def new_grid_def
        replicate_two numeral_3_eq_3)
  ultimately show ?thesis
    by simp
qed

section \<open>Forced default sizes\<close>

lemma apply_minimum_entries:
  "apply_minimum m xs = Inr ys \<Longrightarrow> i < length xs \<Longrightarrow>
     ys ! i = xs ! i \<or> (\<exists>k. (k, ys ! i) \<in> set m \<and> (k = int i \<or> k = int i - int (length xs)))"
proof (induction m xs rule: apply_minimum.induct)
  case (1 sizes)
  then show ?case by simp
next
  case (2 index v rest sizes)
  from "2.prems"(1) obtain sizes' where
    set: "list_set sizes index v = Inr sizes'" and rest: "apply_minimum rest sizes' = Inr ys"
    by (auto split: sum.splits)
  from set have len: "length sizes' = length sizes"
    by (auto simp: list_set_def Let_def split: if_splits)
  from "2.IH" [OF set rest] "2.prems"(2) len
  have "ys ! i = sizes' ! i \<or> (\<exists>k. (k, ys ! i) \<in> set rest \<and> (k = int i \<or> k = int i - int (length sizes)))"
    by simp
  moreover have "sizes' ! i = sizes ! i \<or> (sizes' ! i = v \<and> (index = int i \<or> index = int i - int (length sizes)))"
    using set "2.prems"(2)
    by (auto simp: list_set_def Let_def nth_list_update split: if_splits)
  ultimately show ?case
    by auto
qed

lemma apply_minimum_replicate:
  assumes "apply_minimum m (replicate n d) = Inr ys"
  shows "apply_minimum m (replicate (length ys) d) = Inr ys"
  using assms apply_minimum_length [OF assms] by simp

lemma finalize_forced:
  assumes "finalize_rows_cols_sizes s = Inr s'" and "col_force_default s"
  shows "\<exists>fs. p_cols s' = Some fs
           \<and> apply_minimum (cols_minimum s) (replicate (length fs) (col_default_width s)) = Inr fs"
  using assms
  by (auto simp: finalize_rows_cols_sizes_def finalize_cols_def
      split: option.splits sum.splits intro: apply_minimum_replicate)

lemma init_frame:
  "init_rows_cols_sizes s n = Inr (ok, s') \<Longrightarrow>
     col_force_default s' = col_force_default s \<and> cols_minimum s' = cols_minimum s
     \<and> col_default_width s' = col_default_width s \<and> children s' = children s
     \<and> padding s' = padding s \<and> spacing s' = spacing s \<and> width s' = width s \<and> height s' = height s
     \<and> row_force_default s' = row_force_default s \<and> rows_minimum s' = rows_minimum s
     \<and> row_default_height s' = row_default_height s \<and> self_x s' = self_x s \<and> self_y s' = self_y s
     \<and> cols s' = cols s \<and> rows s' = rows s"
  by (auto simp: init_rows_cols_sizes_def split: option.splits sum.splits prod.splits)

lemma fill_frame:
  "fill_rows_cols_sizes s = Inr s' \<Longrightarrow>
     col_force_default s' = col_force_default s \<and> cols_minimum s' = cols_minimum s
     \<and> col_default_width s' = col_default_width s \<and> children s' = children s
     \<and> padding s' = padding s \<and> spacing s' = spacing s \<and> width s' = width s \<and> height s' = height s
     \<and> row_force_default s' = row_force_default s \<and> rows_minimum s' = rows_minimum s
     \<and> row_default_height s' = row_default_height s \<and> self_x s' = self_x s \<and> self_y s' = self_y s
     \<and> cols s' = cols s \<and> rows s' = rows s \<and> minimum_size s' = minimum_size s"
  by (auto simp: fill_rows_cols_sizes_def split: option.splits sum.splits prod.splits)

lemma update_minimum_size_frame:
  "update_minimum_size s = Inr s' \<Longrightarrow>
     col_force_default s' = col_force_default s \<and> cols_minimum s' = cols_minimum s
     \<and> col_default_width s' = col_default_width s \<and> children s' = children s
     \<and> padding s' = padding s \<and> spacing s' = spacing s \<and> width s' = width s \<and> height s' = height s
     \<and> row_force_default s' = row_force_default s \<and> rows_minimum s' = rows_minimum s
     \<and> row_default_height s' = row_default_height s \<and> self_x s' = self_x s \<and> self_y s' = self_y s
     \<and> cols s' = cols s \<and> rows s' = rows s
     \<and> p_cols s' = p_cols s \<and> p_rows s' = p_rows s \<and> p_cols_sh s' = p_cols_sh s \<and> p_rows_sh s' = p_rows_sh s"
  by (auto simp: update_minimum_size_def split: option.splits sum.splits prod.splits)

lemma do_layout_InrE:
  assumes "do_layout s = Inr s'"
  obtains ok s1 s3 s4 s5 cells cs where
    "(if children s = [] then Inr (False, s)
      else init_rows_cols_sizes s (length (children s))) = Inr (ok, s1)"
    and "fill_rows_cols_sizes
           (if ok then s1
            else (case padding s1 of (l, t, r, b) \<Rightarrow> s1\<lparr>minimum_size := (l + r, t + b)\<rparr>)) = Inr s3"
    and "update_minimum_size s3 = Inr s4"
    and "finalize_rows_cols_sizes s4 = Inr s5"
    and "iterate_layout s5 (length (children s5)) = Inr cells"
    and "place_children cells (children s5) = Inr cs"
    and "s' = s5\<lparr>children := cs\<rparr>"
  using assms unfolding do_layout_def Let_def
  by (auto split: sum.splits prod.splits)

lemma do_layout_forced:
  assumes "do_layout s = Inr s'" and "col_force_default s"
  shows "\<exists>fs. p_cols s' = Some fs
           \<and> apply_minimum (cols_minimum s) (replicate (length fs) (col_default_width s)) = Inr fs"
proof -
  from assms(1) obtain ok s1 s3 s4 s5 and cells :: "cell list" and cs where
    i: "(if children s = [] then Inr (False, s)
         else init_rows_cols_sizes s (length (children s))) = Inr (ok, s1)"
    and f: "fill_rows_cols_sizes
              (if ok then s1
               else (case padding s1 of (l, t, r, b) \<Rightarrow> s1\<lparr>minimum_size := (l + r, t + b)\<rparr>)) = Inr s3"
    and u: "update_minimum_size s3 = Inr s4"
    and z: "finalize_rows_cols_sizes s4 = Inr s5"
    and s': "s' = s5\<lparr>children := cs\<rparr>"
    by (rule do_layout_InrE)
  from i have "col_force_default s1 = col_force_default s \<and> cols_minimum s1 = cols_minimum s
     \<and> col_default_width s1 = col_default_width s"
    by (auto split: if_splits dest: init_frame)
  with fill_frame [OF f] update_minimum_size_frame [OF u]
  have "col_force_default s4 = col_force_default s \<and> cols_minimum s4 = cols_minimum s
     \<and> col_default_width s4 = col_default_width s"
    by (auto split: if_splits prod.splits)
  with finalize_forced [OF z] assms(2) s' show ?thesis
    by auto
qed

text \<open>
  Claim C9. With \<^verbatim>\<open>col_force_default\<close> set, two layout passes under the same default
  width and the same \<^verbatim>\<open>cols_minimum\<close> that end with the same number of columns end with
  the same column sizes, whatever the children are; every column has the default width
  or the value \<^verbatim>\<open>cols_minimum\<close> gives for its index (a negative key counts from the end).
\<close>

theorem forced_columns_ignore_items:
  assumes "col_force_default s" and "col_force_default t"
    and "col_default_width t = col_default_width s" and "cols_minimum t = cols_minimum s"
    and "do_layout s = Inr s'" and "do_layout t = Inr t'"
    and "map_option length (p_cols s') = map_option length (p_cols t')"
  shows "\<exists>fs. p_cols s' = Some fs \<and> p_cols t' = Some fs
     \<and> (\<forall>i<length fs. fs ! i = col_default_width s
           \<or> (\<exists>k. (k, fs ! i) \<in> set (cols_minimum s) \<and> (k = int i \<or> k = int i - int (length fs))))"
proof -
  from do_layout_forced [OF assms(5) assms(1)] obtain fs where
    fs: "p_cols s' = Some fs"
      "apply_minimum (cols_minimum s) (replicate (length fs) (col_default_width s)) = Inr fs"
    by blast
  from do_layout_forced [OF assms(6) assms(2)] assms(3,4) obtain gs where
    gs: "p_cols t' = Some gs"
      "apply_minimum (cols_minimum s) (replicate (length gs) (col_default_width s)) = Inr gs"
    by auto
  from fs(1) gs(1) assms(7) have "length gs = length fs"
    by simp
  with fs(2) gs(2) have "gs = fs"
    by simp
  moreover have "\<forall>i<length fs. fs ! i = col_default_width s
           \<or> (\<exists>k. (k, fs ! i) \<in> set (cols_minimum s) \<and> (k = int i \<or> k = int i - int (length fs)))"
    using apply_minimum_entries [OF fs(2)] by auto
  ultimately show ?thesis
    using fs(1) gs(1) by simp
qed

theorem forced_columns_ignore_items_witness:
  "\<exists>s' t'. do_layout (forced_grid [new_widget (None, None) (500, 5)]) = Inr s'
     \<and> do_layout (forced_grid [new_widget (Some 1, Some 2) (1, 1), new_widget (None, Some 1) (9, 9)])
         = Inr t'
     \<and> p_cols s' = Some [30, 70] \<and> p_cols t' = Some [30, 70]"
proof -
  let ?s = "forced_grid [new_widget (None, None) (500, 5)]"
  let ?t = "forced_grid [new_widget (Some 1, Some 2) (1, 1), new_widget (None, Some 1) (9, 9)]"
  have s: "\<exists>s'. do_layout ?s = Inr s' \<and> p_cols s' = Some [30, 70]"
    by (simp add: forced_grid_def new_grid_def new_widget_def layout_defs replicate_two upt_two
        case_prod_unfold mod_Suc div_Suc)
  have t: "\<exists>t'. do_layout ?t = Inr t' \<and> map_option length (p_cols t') = Some 2"
    by (simp add: forced_grid_def new_grid_def new_widget_def layout_defs replicate_two upt_two
        case_prod_unfold mod_Suc div_Suc)
  from s obtain s' where s': "do_layout ?s = Inr s'" "p_cols s' = Some [30, 70]"
    by blast
  from t obtain t' where t': "do_layout ?t = Inr t'" "map_option length (p_cols t') = Some 2"
    by blast
  have "col_force_default ?s" and "col_force_default ?t"
    and "col_default_width ?t = col_default_width ?s" and "cols_minimum ?t = cols_minimum ?s"
    by (simp_all add: forced_grid_def)
  from forced_columns_ignore_items [OF this s'(1) t'(1)] s'(2) t'(2)
  have "p_cols t' = Some [30, 70]"
    by auto
  with s' t'(1) show ?thesis
    by blast
qed

section \<open>Stretch distribution\<close>

lemma stretch_loop_nth:
  assumes "weigth \<noteq> 0" and "distinct idx"
    and "\<forall>i\<in>set idx. i < length sh \<and> i < length sizes"
  shows "\<exists>ys. stretch_loop strech weigth sh idx sizes = Inr ys \<and> length ys = length sizes
     \<and> (\<forall>j<length sizes. ys ! j =
           (if j \<in> set idx \<and> truthy (sh ! j) then sizes ! j + strech * the (sh ! j) / weigth
            else sizes ! j))"
  using assms(2,3)
proof (induction idx arbitrary: sizes)
  case Nil
  then show ?case by simp
next
  case (Cons index rest)
  then have ix: "index < length sh" "index < length sizes" and fresh: "index \<notin> set rest"
    and dist: "distinct rest"
    by simp_all
  show ?case
  proof (cases "truthy (sh ! index)")
    case False
    from Cons.prems dist have "\<forall>i\<in>set rest. i < length sh \<and> i < length sizes"
      by simp
    from Cons.IH [OF dist this] obtain ys where
      ys: "stretch_loop strech weigth sh rest sizes = Inr ys" "length ys = length sizes"
        "\<forall>j<length sizes. ys ! j =
           (if j \<in> set rest \<and> truthy (sh ! j) then sizes ! j + strech * the (sh ! j) / weigth
            else sizes ! j)"
      by blast
    from False ix ys(1) have "stretch_loop strech weigth sh (index # rest) sizes = Inr ys"
      by (cases "sh ! index") (simp_all add: list_get_def)
    with ys(2,3) False show ?thesis
      by auto
  next
    case True
    then obtain st where st: "sh ! index = Some st" "st \<noteq> 0"
      by (cases "sh ! index") simp_all
    let ?sizes' = "sizes[index := sizes ! index + strech * st / weigth]"
    from Cons.prems have "\<forall>i\<in>set rest. i < length sh \<and> i < length ?sizes'"
      by simp
    from Cons.IH [OF dist this] obtain ys where
      ys: "stretch_loop strech weigth sh rest ?sizes' = Inr ys" "length ys = length ?sizes'"
        "\<forall>j<length ?sizes'. ys ! j =
           (if j \<in> set rest \<and> truthy (sh ! j) then ?sizes' ! j + strech * the (sh ! j) / weigth
            else ?sizes' ! j)"
      by blast
    from st ix ys(1) assms(1)
    have run: "stretch_loop strech weigth sh (index # rest) sizes = Inr ys"
      by (simp add: list_get_def)
    have "ys ! j =
           (if j \<in> set (index # rest) \<and> truthy (sh ! j)
            then sizes ! j + strech * the (sh ! j) / weigth else sizes ! j)"
      if "j < length sizes" for j
    proof (cases "j = index")
      case True
      with ys(3) that fresh st show ?thesis
        by simp
    next
      case False
      with ys(3) that show ?thesis
        by simp
    qed
    with run ys(2) show ?thesis
      by simp
  qed
qed

lemma stretch_loop_idle:
  assumes "\<forall>i\<in>set idx. i < length sh \<and> \<not> truthy (sh ! i)"
  shows "stretch_loop strech weigth sh idx sizes = Inr sizes"
  using assms
proof (induction idx)
  case Nil
  then show ?case by simp
next
  case (Cons index rest)
  then have "index < length sh" and "\<not> truthy (sh ! index)"
    and "stretch_loop strech weigth sh rest sizes = Inr sizes"
    by simp_all
  then show ?case
    by (cases "sh ! index") (simp_all add: list_get_def)
qed

lemma stretch_weight_sum:
  "stretch_weight sh = (\<Sum>j | j < length sh \<and> truthy (sh ! j). the (sh ! j))"
proof -
  have "stretch_weight sh = sum_list (map (\<lambda>x. if truthy x then the x else 0) sh)"
    by (simp add: stretch_weight_def sum_list_map_filter')
  also have "\<dots> = (\<Sum>j = 0..<length sh. if truthy (sh ! j) then the (sh ! j) else 0)"
    by (simp add: sum_list_sum_nth)
  also have "\<dots> = (\<Sum>j | j < length sh \<and> truthy (sh ! j). the (sh ! j))"
    by (rule sum.mono_neutral_cong_right) auto
  finally show ?thesis .
qed

lemma slack_sum:
  assumes "weigth = stretch_weight sh" and "weigth \<noteq> 0" and "length ys = length sh"
    and "\<forall>j<length sh. ys ! j =
           (if truthy (sh ! j) then sizes ! j + strech * the (sh ! j) / weigth else sizes ! j)"
  shows "(\<Sum>j | j < length sh \<and> truthy (sh ! j). ys ! j - sizes ! j) = strech"
proof -
  have "(\<Sum>j | j < length sh \<and> truthy (sh ! j). ys ! j - sizes ! j)
      = (\<Sum>j | j < length sh \<and> truthy (sh ! j). strech * the (sh ! j) / weigth)"
    using assms(4) by (intro sum.cong) auto
  also have "\<dots> = strech * (\<Sum>j | j < length sh \<and> truthy (sh ! j). the (sh ! j)) / weigth"
    by (simp add: sum_distrib_left sum_divide_distrib)
  also have "\<dots> = strech"
    using assms(1,2) by (simp add: stretch_weight_sum)
  finally show ?thesis .
qed

text \<open>
  Claim C2, amended. Without force-default and with \<open>slack = max 0 (avail - minimum)\<close>:
  when the total stretch weight is not zero, every slot with a nonzero weight gets
  \<open>slack * weight / total\<close> added, every other slot keeps its base size, and the amounts
  added to the weighted slots sum to \<open>slack\<close>; when no slot has a weight, every slot
  keeps its base size and nothing of the slack is handed out. Columns and rows alike.
\<close>

theorem stretch_distribution:
  assumes "length sh = length sizes"
  shows "((\<forall>x\<in>set sh. \<not> truthy x) \<longrightarrow>
            finalize_cols False d m avail minimum sizes (Some sh) = Inr sizes
          \<and> finalize_rows False d m avail minimum sizes (Some sh) = Inr sizes)
     \<and> (stretch_weight sh \<noteq> 0 \<longrightarrow>
          (\<exists>fs. finalize_cols False d m avail minimum sizes (Some sh) = Inr fs
             \<and> finalize_rows False d m avail minimum sizes (Some sh) = Inr fs
             \<and> length fs = length sizes
             \<and> (\<forall>j<length sizes. fs ! j =
                   (if truthy (sh ! j)
                    then sizes ! j + max 0 (avail - minimum) * the (sh ! j) / stretch_weight sh
                    else sizes ! j))
             \<and> (\<Sum>j | j < length sizes \<and> truthy (sh ! j). fs ! j - sizes ! j)
                 = max 0 (avail - minimum)))"
proof (intro conjI impI)
  assume idle: "\<forall>x\<in>set sh. \<not> truthy x"
  then have "\<forall>i\<in>set [0..<length sh]. i < length sh \<and> \<not> truthy (sh ! i)"
    by simp
  then have "stretch_loop (max 0 (avail - minimum)) (stretch_weight sh) sh [0..<length sh] sizes
      = Inr sizes"
    by (rule stretch_loop_idle)
  with assms show "finalize_cols False d m avail minimum sizes (Some sh) = Inr sizes"
    and "finalize_rows False d m avail minimum sizes (Some sh) = Inr sizes"
    by (simp_all add: finalize_cols_def finalize_rows_def)
next
  assume wt: "stretch_weight sh \<noteq> 0"
  have "\<forall>i\<in>set [0..<length sh]. i < length sh \<and> i < length sizes"
    using assms by simp
  from stretch_loop_nth [OF wt _ this, of "max 0 (avail - minimum)"] obtain fs where
    fs: "stretch_loop (max 0 (avail - minimum)) (stretch_weight sh) sh [0..<length sh] sizes = Inr fs"
      "length fs = length sizes"
      "\<forall>j<length sizes. fs ! j =
         (if j \<in> set [0..<length sh] \<and> truthy (sh ! j)
          then sizes ! j + max 0 (avail - minimum) * the (sh ! j) / stretch_weight sh
          else sizes ! j)"
    by auto
  from fs(3) assms have nth: "\<forall>j<length sizes. fs ! j =
         (if truthy (sh ! j)
          then sizes ! j + max 0 (avail - minimum) * the (sh ! j) / stretch_weight sh
          else sizes ! j)"
    by simp
  have "(\<Sum>j | j < length sh \<and> truthy (sh ! j). fs ! j - sizes ! j) = max 0 (avail - minimum)"
    using wt fs(2) nth assms by (intro slack_sum [where weigth = "stretch_weight sh"]) simp_all
  with fs(1,2) nth assms
  show "\<exists>fs. finalize_cols False d m avail minimum sizes (Some sh) = Inr fs
             \<and> finalize_rows False d m avail minimum sizes (Some sh) = Inr fs
             \<and> length fs = length sizes
             \<and> (\<forall>j<length sizes. fs ! j =
                   (if truthy (sh ! j)
                    then sizes ! j + max 0 (avail - minimum) * the (sh ! j) / stretch_weight sh
                    else sizes ! j))
             \<and> (\<Sum>j | j < length sizes \<and> truthy (sh ! j). fs ! j - sizes ! j)
                 = max 0 (avail - minimum)"
    by (auto simp: finalize_cols_def finalize_rows_def)
qed

theorem stretch_distribution_witness:
  "\<exists>fs. finalize_cols False 0 [] 100 60 [10, 20, 30] (Some [Some 1, None, Some 3]) = Inr fs
     \<and> finalize_rows False 0 [] 100 60 [10, 20, 30] (Some [Some 1, None, Some 3]) = Inr fs
     \<and> fs ! 0 = 20 \<and> fs ! 1 = 20 \<and> fs ! 2 = 60
     \<and> (\<Sum>j | j < 3 \<and> truthy ([Some 1, None, Some 3] ! j). fs ! j - [10, 20, 30] ! j) = 40"
proof -
  have len: "length [Some 1, None, Some (3::rat)] = length [10, 20, 30::rat]"
    by simp
  have wt: "stretch_weight [Some 1, None, Some 3] = 4"
    by (simp add: stretch_weight_def)
  from stretch_distribution [OF len, of 0 "[]" 100 60] wt obtain fs where
    fs: "finalize_cols False 0 [] 100 60 [10, 20, 30] (Some [Some 1, None, Some 3]) = Inr fs"
      "finalize_rows False 0 [] 100 60 [10, 20, 30] (Some [Some 1, None, Some 3]) = Inr fs"
      "\<forall>j<length [10, 20, 30::rat]. fs ! j =
         (if truthy ([Some 1, None, Some 3] ! j)
          then [10, 20, 30] ! j + max 0 (100 - 60) * the ([Some 1, None, Some 3] ! j) / 4
          else [10, 20, 30] ! j)"
      "(\<Sum>j | j < length [10, 20, 30::rat] \<and> truthy ([Some 1, None, Some 3] ! j).
          fs ! j - [10, 20, 30] ! j) = max 0 (100 - 60)"
    by auto
  from fs(3) have "fs ! 0 = 20" and "fs ! 1 = 20" and "fs ! 2 = 60"
    by simp_all
  with fs(1,2,4) show ?thesis
    by (simp add: numeral_3_eq_3)
qed

text \<open>The claim as stated fails where no column has a stretch weight: the layout of
  \<open>fixed_child_grid\<close> leaves a slack of 50 and adds nothing.\<close>

theorem slack_unused_counterexample:
  "(\<exists>s'. do_layout fixed_child_grid = Inr s' \<and> p_cols s' = Some [50] \<and> p_cols_sh s' = Some [None]
      \<and> max 0 (width s' - fst (minimum_size s')) = 50)
   \<and> finalize_cols False 0 [] 100 50 [50] (Some [None]) = Inr [50]
   \<and> (\<Sum>j | j < length [50::rat] \<and> truthy ([None] ! j). [50::rat] ! j - [50] ! j)
       \<noteq> max 0 (100 - 50)"
  by (simp add: fixed_child_grid_def new_grid_def new_widget_def layout_defs case_prod_unfold)

section \<open>A second pass over a configured grid\<close>

lemma demand_place_child: "demand (place_child c p sz) = demand c"
  by (cases sz; cases "size_hint c")
     (auto simp: demand_def place_child_def Let_def)

lemma place_child_twice: "place_child (place_child c p sz) p sz = place_child c p sz"
  by (cases sz; cases "size_hint c")
     (auto simp: place_child_def Let_def)

lemma fill_child_demand:
  assumes "demand c = demand c'"
  shows "fill_child n i c st = fill_child n i c' st"
proof -
  from assms have sh: "size_hint c' = size_hint c"
    by (simp add: demand_def)
  obtain shw shh where hint: "size_hint c = (shw, shh)"
    by (cases "size_hint c")
  have x: "fill_axis xs xsh k shw (fst (wsize c)) = fill_axis xs xsh k shw (fst (wsize c'))"
    for xs xsh k
    using assms sh hint by (cases shw) (auto simp: demand_def fill_axis_def)
  have y: "fill_axis xs xsh k shh (snd (wsize c)) = fill_axis xs xsh k shh (snd (wsize c'))"
    for xs xsh k
    using assms sh hint by (cases shh) (auto simp: demand_def fill_axis_def)
  show ?thesis
    using sh hint x y by (auto simp: fill_child_def case_prod_unfold split: sum.splits)
qed

lemma fill_loop_demand:
  assumes "map demand cs = map demand cs'"
  shows "fill_loop n i cs st = fill_loop n i cs' st"
  using assms
proof (induction cs arbitrary: cs' i st)
  case Nil
  then show ?case by simp
next
  case (Cons c cs)
  then obtain c' cs1 where cs': "cs' = c' # cs1" and c: "demand c = demand c'"
    and rest: "map demand cs = map demand cs1"
    by (cases cs') auto
  from fill_child_demand [OF c] Cons.IH [OF rest] show ?case
    by (simp add: cs' split: sum.splits)
qed

lemma place_children_keeps:
  "place_children cells cs = Inr cs' \<Longrightarrow>
     length cs' = length cs \<and> map demand cs' = map demand cs
     \<and> (\<forall>j. j \<notin> (\<lambda>c. nat (fst c)) ` set cells \<longrightarrow> cs' ! j = cs ! j)"
proof (induction cells cs rule: place_children.induct)
  case (1 cs)
  then show ?case by simp
next
  case (2 i p sz rest cs)
  from "2.prems" have ix: "nat i < length cs"
    and run: "place_children rest (cs[nat i := place_child (cs ! nat i) p sz]) = Inr cs'"
    by (auto simp: list_get_def split: if_splits)
  have get: "list_get cs (nat i) = Inr (cs ! nat i)"
    using ix by (simp add: list_get_def)
  from "2.IH" [OF get run] have
    len: "length cs' = length cs"
    and dem: "map demand cs' = map demand (cs[nat i := place_child (cs ! nat i) p sz])"
    and rest: "\<forall>j. j \<notin> (\<lambda>c. nat (fst c)) ` set rest \<longrightarrow>
                 cs' ! j = (cs[nat i := place_child (cs ! nat i) p sz]) ! j"
    by simp_all
  have "map demand (cs[nat i := place_child (cs ! nat i) p sz]) = map demand cs"
    using ix by (simp add: map_update demand_place_child list_update_same_conv)
  with len dem rest show ?case
    by auto
qed

lemma place_children_again:
  assumes "place_children cells cs = Inr cs'"
    and "sorted_wrt (>) (map fst cells)" and "\<forall>c\<in>set cells. 0 \<le> fst c"
  shows "place_children cells cs' = Inr cs'"
  using assms
proof (induction cells cs arbitrary: cs' rule: place_children.induct)
  case (1 cs)
  then show ?case by simp
next
  case (2 i p sz rest cs)
  let ?cs1 = "cs[nat i := place_child (cs ! nat i) p sz]"
  from "2.prems"(1) have ix: "nat i < length cs"
    and run: "place_children rest ?cs1 = Inr cs'"
    by (auto simp: list_get_def split: if_splits)
  have get: "list_get cs (nat i) = Inr (cs ! nat i)"
    using ix by (simp add: list_get_def)
  from "2.prems"(2,3) have fresh: "nat i \<notin> (\<lambda>c. nat (fst c)) ` set rest"
    by (fastforce simp: nat_eq_iff)
  from place_children_keeps [OF run] fresh ix
  have len: "length cs' = length cs" and at: "cs' ! nat i = place_child (cs ! nat i) p sz"
    by simp_all
  from "2.prems"(2,3) have "sorted_wrt (>) (map fst rest)" and "\<forall>c\<in>set rest. 0 \<le> fst c"
    by simp_all
  from "2.IH" [OF get run this] have again: "place_children rest cs' = Inr cs'" .
  have "place_child (cs' ! nat i) p sz = cs' ! nat i"
    by (simp add: at place_child_twice)
  then have "cs'[nat i := place_child (cs' ! nat i) p sz] = cs'"
    by simp
  with again ix len show ?case
    by (simp add: list_get_def)
qed

lemma iterate_row_indices:
  assumes "iterate_row i x y rh sx cs = (cells, i')"
  shows "i' \<le> i \<and> sorted_wrt (>) (map fst cells)
     \<and> (\<forall>c\<in>set cells. 0 \<le> fst c \<and> i' < fst c \<and> fst c \<le> i)"
  using assms
proof (induction cs arbitrary: i x cells)
  case Nil
  then show ?case by simp
next
  case (Cons cw cs)
  show ?case
  proof (cases "i < 0")
    case True
    with Cons.prems show ?thesis
      by simp
  next
    case False
    then obtain rest where
      rest: "iterate_row (i - 1) (x + cw + sx) y rh sx cs = (rest, i')"
      and cells: "cells = (i, (x, y - rh), (cw, rh)) # rest"
      using Cons.prems by (auto split: prod.splits)
    from Cons.IH [OF rest] False cells show ?thesis
      by fastforce
  qed
qed

lemma iterate_rows_indices:
  "sorted_wrt (>) (map fst (iterate_rows i x0 y sx sy cs rs))
   \<and> (\<forall>c\<in>set (iterate_rows i x0 y sx sy cs rs). 0 \<le> fst c \<and> fst c \<le> i)"
proof (induction rs arbitrary: i y)
  case Nil
  then show ?case by simp
next
  case (Cons rh rs)
  obtain cells i' where row: "iterate_row i x0 y rh sx cs = (cells, i')"
    by (cases "iterate_row i x0 y rh sx cs")
  from iterate_row_indices [OF row] Cons.IH [of i' "y - (rh + sy)"] row show ?case
    by (fastforce simp: sorted_wrt_append)
qed

lemma init_TrueE:
  assumes "init_rows_cols_sizes s n = Inr (ok, s1)" and "resolve_shape (cols s) (rows s) n \<noteq> None"
  obtains nc nr c0 r0 where "ok"
    and "resolve_shape (cols s) (rows s) n = Some (nc, nr)"
    and "apply_minimum (cols_minimum s) (replicate nc (col_default_width s)) = Inr c0"
    and "apply_minimum (rows_minimum s) (replicate nr (row_default_height s)) = Inr r0"
    and "s1 = s\<lparr>p_cols := Some c0, p_rows := Some r0,
                 p_cols_sh := Some (replicate nc None), p_rows_sh := Some (replicate nr None)\<rparr>"
  using assms
  by (auto simp: init_rows_cols_sizes_def split: option.splits sum.splits prod.splits)

lemma fill_InrE:
  assumes "fill_rows_cols_sizes s = Inr s3"
  obtains cs csh rs rsh cs' csh' rs' rsh' where
    "p_cols s = Some cs" and "p_cols_sh s = Some csh" and "p_rows s = Some rs"
    and "p_rows_sh s = Some rsh"
    and "fill_loop (length cs) 0 (rev (children s)) (cs, csh, rs, rsh) = Inr (cs', csh', rs', rsh')"
    and "s3 = s\<lparr>p_cols := Some cs', p_rows := Some rs',
                 p_cols_sh := Some csh', p_rows_sh := Some rsh'\<rparr>"
  using assms
  by (auto simp: fill_rows_cols_sizes_def split: option.splits sum.splits prod.splits)

lemma finalize_InrE:
  assumes "finalize_rows_cols_sizes s = Inr s5"
  obtains cs rs cs' rs' where "p_cols s = Some cs" and "p_rows s = Some rs"
    and "finalize_cols (col_force_default s) (col_default_width s) (cols_minimum s)
           (width s) (fst (minimum_size s)) cs (p_cols_sh s) = Inr cs'"
    and "finalize_rows (row_force_default s) (row_default_height s) (rows_minimum s)
           (height s) (snd (minimum_size s)) rs (p_rows_sh s) = Inr rs'"
    and "s5 = s\<lparr>p_cols := Some cs', p_rows := Some rs'\<rparr>"
  using assms
  by (auto simp: finalize_rows_cols_sizes_def split: option.splits sum.splits)

text \<open>A pass over a grid with \<^verbatim>\<open>cols\<close> or \<^verbatim>\<open>rows\<close> set and at least one child re-initialises
  everything it reads: the grid it returns is a fixed point of \<^verbatim>\<open>do_layout\<close>.\<close>

lemma configured_pass_fixpoint:
  assumes "do_layout s = Inr s'" and "children s \<noteq> []"
    and "resolve_shape (cols s) (rows s) (length (children s)) \<noteq> None"
  shows "do_layout s' = Inr s'"
proof -
  let ?n = "length (children s)"
  from assms(1) obtain ok s1 s3 s4 s5 cells cs where
    i: "(if children s = [] then Inr (False, s)
         else init_rows_cols_sizes s (length (children s))) = Inr (ok, s1)"
    and f: "fill_rows_cols_sizes
              (if ok then s1
               else (case padding s1 of (l, t, r, b) \<Rightarrow> s1\<lparr>minimum_size := (l + r, t + b)\<rparr>)) = Inr s3"
    and u: "update_minimum_size s3 = Inr s4"
    and z: "finalize_rows_cols_sizes s4 = Inr s5"
    and it: "iterate_layout s5 (length (children s5)) = Inr cells"
    and pl: "place_children cells (children s5) = Inr cs"
    and s': "s' = s5\<lparr>children := cs\<rparr>"
    by (rule do_layout_InrE)
  from i assms(2) have i': "init_rows_cols_sizes s ?n = Inr (ok, s1)"
    by simp
  from i' assms(3) obtain nc nr c0 r0 where ok: ok
    and shape: "resolve_shape (cols s) (rows s) ?n = Some (nc, nr)"
    and c0: "apply_minimum (cols_minimum s) (replicate nc (col_default_width s)) = Inr c0"
    and r0: "apply_minimum (rows_minimum s) (replicate nr (row_default_height s)) = Inr r0"
    and s1: "s1 = s\<lparr>p_cols := Some c0, p_rows := Some r0,
                 p_cols_sh := Some (replicate nc None), p_rows_sh := Some (replicate nr None)\<rparr>"
    by (rule init_TrueE)
  from f ok have f': "fill_rows_cols_sizes s1 = Inr s3"
    by simp
  from f' s1 obtain c1 csh1 r1 rsh1 where
    loop: "fill_loop (length c0) 0 (rev (children s))
             (c0, replicate nc None, r0, replicate nr None) = Inr (c1, csh1, r1, rsh1)"
    and s3: "s3 = s1\<lparr>p_cols := Some c1, p_rows := Some r1,
                 p_cols_sh := Some csh1, p_rows_sh := Some rsh1\<rparr>"
    by (elim fill_InrE) simp
  define m where "m = (case padding s of (l, t, r, b) \<Rightarrow>
      (case spacing s of (spacing_x, spacing_y) \<Rightarrow>
        (l + r + spacing_x * (of_nat (length c1) - 1) + sum_list c1,
         t + b + spacing_y * (of_nat (length r1) - 1) + sum_list r1)))"
  from u s3 s1 have s4: "s4 = s3\<lparr>minimum_size := m\<rparr>"
    by (auto simp: update_minimum_size_def m_def split: prod.splits)
  from z s4 s3 s1 obtain c2 r2 where
    fc: "finalize_cols (col_force_default s) (col_default_width s) (cols_minimum s)
           (width s) (fst m) c1 (Some csh1) = Inr c2"
    and fr: "finalize_rows (row_force_default s) (row_default_height s) (rows_minimum s)
           (height s) (snd m) r1 (Some rsh1) = Inr r2"
    and s5: "s5 = s4\<lparr>p_cols := Some c2, p_rows := Some r2\<rparr>"
    by (elim finalize_InrE) simp
  have kids: "children s5 = children s"
    by (simp add: s5 s4 s3 s1)
  from place_children_keeps [OF pl] kids have
    len: "length cs = length (children s)" and dem: "map demand cs = map demand (children s)"
    by simp_all
  from len assms(2) have ne: "cs \<noteq> []"
    by auto
  have cells: "cells = iterate_rows (int ?n - 1) (self_x s + fst (padding s))
      (top s - fst (snd (padding s))) (fst (spacing s)) (snd (spacing s)) c2 r2"
    using it kids
    by (simp add: iterate_layout_def top_def s5 s4 s3 s1 case_prod_unfold)
  have sorted: "sorted_wrt (>) (map fst cells)" and nonneg: "\<forall>c\<in>set cells. 0 \<le> fst c"
    using iterate_rows_indices [of "int ?n - 1" "self_x s + fst (padding s)"
        "top s - fst (snd (padding s))" "fst (spacing s)" "snd (spacing s)" c2 r2]
    by (simp_all add: cells)
  from pl kids have "place_children cells (children s) = Inr cs"
    by simp
  from place_children_again [OF pl sorted nonneg]
  have again: "place_children cells cs = Inr cs" .
  have loop': "fill_loop (length c0) 0 (rev cs)
             (c0, replicate nc None, r0, replicate nr None) = Inr (c1, csh1, r1, rsh1)"
    using loop fill_loop_demand [of "rev cs" "rev (children s)"] dem
    by (simp add: rev_map [symmetric])
  have top': "top s' = top s"
    by (simp add: top_def s' s5 s4 s3 s1)
  have "do_layout s' = Inr (s'\<lparr>p_cols := Some c2, p_rows := Some r2, p_cols_sh := Some csh1,
      p_rows_sh := Some rsh1, minimum_size := m, children := cs\<rparr>)"
    using ne len shape c0 r0 loop' fc fr again cells
    by (simp add: do_layout_def init_rows_cols_sizes_def fill_rows_cols_sizes_def
        update_minimum_size_def finalize_rows_cols_sizes_def iterate_layout_def top_def
        s' s5 s4 s3 s1 m_def case_prod_unfold)
  also have "s'\<lparr>p_cols := Some c2, p_rows := Some r2, p_cols_sh := Some csh1,
      p_rows_sh := Some rsh1, minimum_size := m, children := cs\<rparr> = s'"
    by (simp add: s' s5 s4 s3 s1)
  finally show ?thesis .
qed

section \<open>Passes that should not happen\<close>

lemma layout_one_child: "do_layout one_child_grid = Inr laid_out_grid"
  by (simp add: one_child_grid_def laid_out_grid_def new_grid_def new_widget_def layout_defs
      case_prod_unfold)

lemma layout_stale_1: "do_layout stale_grid = Inr stale_pass_1"
  by (simp add: stale_grid_def stale_pass_1_def laid_out_grid_def new_grid_def layout_defs
      case_prod_unfold)

lemma layout_stale_2: "do_layout stale_pass_1 = Inr stale_pass_2"
  by (simp add: stale_grid_def stale_pass_1_def stale_pass_2_def laid_out_grid_def new_grid_def
      layout_defs case_prod_unfold)

text \<open>
  Claim C1 says that a pass over a grid with neither \<^verbatim>\<open>cols\<close> nor \<^verbatim>\<open>rows\<close> set (or both
  zero) sets \<^verbatim>\<open>minimum_size\<close> to the padding sums, places nothing and does not raise.
  The code does not stop after lines 416-417. On a fresh grid the pass raises
  (\<^verbatim>\<open>_cols_sh\<close> does not exist yet). On a grid that was laid out before its \<^verbatim>\<open>cols\<close> was
  unset, the pass goes on with the sizes the earlier pass left: it overwrites
  \<^verbatim>\<open>minimum_size\<close> with \<open>(100, 100)\<close>, not the padding sums \<open>(0, 0)\<close>, and resizes the
  child from \<open>(100, 100)\<close> to \<open>(200, 100)\<close>.
\<close>

theorem unconfigured_pass_goes_on:
  "(\<forall>w. do_layout (new_grid\<lparr>children := [w]\<rparr>) = Inl AttributeError)
   \<and> (\<forall>w. do_layout (new_grid\<lparr>cols := Some 0, rows := Some 0, children := [w]\<rparr>) = Inl AttributeError)
   \<and> do_layout one_child_grid = Inr laid_out_grid
   \<and> stale_grid = laid_out_grid\<lparr>cols := None, width := 200\<rparr>
   \<and> cols stale_grid = None \<and> rows stale_grid = None \<and> padding stale_grid = (0, 0, 0, 0)
   \<and> do_layout stale_grid = Inr stale_pass_1
   \<and> minimum_size stale_pass_1 = (100, 100)
   \<and> map wsize (children stale_grid) = [(100, 100)]
   \<and> map wsize (children stale_pass_1) = [(200, 100)]"
  using layout_one_child layout_stale_1
  by (simp add: stale_grid_def stale_pass_1_def laid_out_grid_def new_grid_def
      do_layout_def init_rows_cols_sizes_def resolve_shape_def fill_rows_cols_sizes_def)

text \<open>
  Claim C8 says that a second pass with nothing changed in between ends with the same
  positions, sizes and \<^verbatim>\<open>minimum_size\<close> as the first. On \<open>stale_grid\<close> (laid out, then
  \<^verbatim>\<open>cols\<close> unset and the container widened) the first pass ends with \<^verbatim>\<open>minimum_size\<close>
  \<open>(100, 100)\<close> and the second with \<open>(200, 100)\<close>: without the \<^verbatim>\<open>return\<close> after
  lines 416-417 each pass starts from the column sizes the pass before it stretched.
  (A pass over a grid with \<^verbatim>\<open>cols\<close> or \<^verbatim>\<open>rows\<close> set and a child returns a fixed point:
  \<open>configured_pass_fixpoint\<close>.)
\<close>

theorem second_pass_changes_minimum_size:
  "do_layout one_child_grid = Inr laid_out_grid
   \<and> stale_grid = laid_out_grid\<lparr>cols := None, width := 200\<rparr>
   \<and> do_layout stale_grid = Inr stale_pass_1
   \<and> do_layout stale_pass_1 = Inr stale_pass_2
   \<and> minimum_size stale_pass_1 = (100, 100)
   \<and> minimum_size stale_pass_2 = (200, 100)"
  using layout_one_child layout_stale_1 layout_stale_2
  by (simp add: stale_grid_def stale_pass_1_def stale_pass_2_def)

text \<open>
  Claim C6 says that an entry of \<^verbatim>\<open>cols_minimum\<close> whose key is outside the resolved
  column count is inert. In the code, line 311 assigns \<^verbatim>\<open>cols[index] = value\<close> unguarded
  (the comment of line 309 asks whether the index might be out of bounds): with two
  columns the keys 2, 5 and -3 raise \<^verbatim>\<open>IndexError\<close>, and the key -1 overrides the last
  column, so that the columns end as \<open>[90, 10]\<close> instead of \<open>[100, 0]\<close>.
\<close>

theorem out_of_range_override_raises:
  "do_layout (override_grid [(2, 10)]) = Inl IndexError
   \<and> do_layout (override_grid [(5, 10)]) = Inl IndexError
   \<and> do_layout (override_grid [(- 3, 10)]) = Inl IndexError
   \<and> (\<exists>s'. do_layout (override_grid []) = Inr s' \<and> p_cols s' = Some [100, 0])
   \<and> (\<exists>s'. do_layout (override_grid [(- 1, 10)]) = Inr s' \<and> p_cols s' = Some [90, 10])"
  by (simp add: override_grid_def new_grid_def new_widget_def layout_defs replicate_two upt_two
      case_prod_unfold)

section \<open>The capacity check\<close>

lemma apply_minimum_error: "apply_minimum m xs = Inl e \<Longrightarrow> e = IndexError"
  by (induction m xs rule: apply_minimum.induct)
     (auto simp: list_set_def Let_def split: if_splits sum.splits)

lemma init_error: "init_rows_cols_sizes s n = Inl e \<Longrightarrow> e = IndexError"
  by (auto simp: init_rows_cols_sizes_def split: option.splits sum.splits prod.splits
      dest: apply_minimum_error)

lemma fill_axis_error: "fill_axis sizes sh k hint len = Inl e \<Longrightarrow> e = IndexError"
  by (cases hint; cases "sh ! k")
     (auto simp: fill_axis_def list_get_def split: if_splits)

lemma fill_child_error: "fill_child n i c st = Inl e \<Longrightarrow> e \<noteq> GridLayoutException"
  by (auto simp: fill_child_def split: prod.splits if_splits sum.splits dest: fill_axis_error)

lemma fill_loop_error: "fill_loop n i cs st = Inl e \<Longrightarrow> e \<noteq> GridLayoutException"
  by (induction cs arbitrary: i st) (auto split: sum.splits dest: fill_child_error)

lemma fill_error: "fill_rows_cols_sizes s = Inl e \<Longrightarrow> e \<noteq> GridLayoutException"
  by (auto simp: fill_rows_cols_sizes_def split: option.splits sum.splits prod.splits
      dest: fill_loop_error)

lemma update_minimum_size_error: "update_minimum_size s = Inl e \<Longrightarrow> e = TypeError"
  by (auto simp: update_minimum_size_def split: option.splits prod.splits)

lemma stretch_loop_error:
  "stretch_loop strech weigth sh idx sizes = Inl e \<Longrightarrow> e \<noteq> GridLayoutException"
  by (induction idx arbitrary: sizes)
     (auto simp: list_get_def split: sum.splits option.splits if_splits)

lemma finalize_error: "finalize_rows_cols_sizes s = Inl e \<Longrightarrow> e \<noteq> GridLayoutException"
  by (auto simp: finalize_rows_cols_sizes_def finalize_cols_def finalize_rows_def
      split: option.splits sum.splits if_splits
      dest: apply_minimum_error stretch_loop_error)

lemma iterate_layout_error: "iterate_layout s n = Inl e \<Longrightarrow> e = TypeError"
  by (auto simp: iterate_layout_def split: option.splits prod.splits)

lemma place_children_error: "place_children cells cs = Inl e \<Longrightarrow> e = IndexError"
  by (induction cells cs rule: place_children.induct)
     (auto simp: list_get_def split: sum.splits if_splits)

lemma do_layout_error: "do_layout s = Inl e \<Longrightarrow> e \<noteq> GridLayoutException"
  unfolding do_layout_def Let_def
  by (auto split: sum.splits prod.splits if_splits
      dest: init_error fill_error update_minimum_size_error finalize_error
        iterate_layout_error place_children_error)

text \<open>
  Claim C5, amended. With both \<^verbatim>\<open>cols\<close> and \<^verbatim>\<open>rows\<close> set and positive and a new item
  collection longer than \<^verbatim>\<open>rows * cols\<close>: the static grid's hook \<^verbatim>\<open>on_children\<close> raises
  \<^verbatim>\<open>GridLayoutException\<close> at the mutation, the rejected mutation (as the spec describes
  the host) leaves the grid as it was, and no layout pass \<^verbatim>\<open>do_layout\<close> ever raises that
  exception. The recycle grid's hook accepts every collection; there the exception is
  raised by the layout pass \<^verbatim>\<open>compute_layout\<close>.
\<close>

theorem capacity_check_sites:
  assumes "cols s = Some c" and "rows s = Some r" and "0 < c" and "0 < r"
    and "r * c < length val"
  shows "on_children s val = Inl GridLayoutException
     \<and> set_children s val = (Some GridLayoutException, s)
     \<and> (\<forall>t. do_layout t \<noteq> Inl GridLayoutException)
     \<and> (\<forall>t. recycle_on_children t val = Inr ())
     \<and> (\<forall>t. cols t = Some c \<and> rows t = Some r \<longrightarrow>
            compute_layout t (length val) = Inl GridLayoutException)"
proof -
  from assms have hook: "on_children s val = Inl GridLayoutException"
    by (simp add: on_children_def get_max_widgets_def)
  then have "set_children s val = (Some GridLayoutException, s)"
    by (simp add: set_children_def)
  moreover have "\<forall>t. do_layout t \<noteq> Inl GridLayoutException"
    using do_layout_error by blast
  moreover have "\<forall>t. recycle_on_children t val = Inr ()"
    by (simp add: recycle_on_children_def)
  moreover have "\<forall>t. cols t = Some c \<and> rows t = Some r \<longrightarrow>
      compute_layout t (length val) = Inl GridLayoutException"
    using assms by (simp add: compute_layout_def get_max_widgets_def)
  ultimately show ?thesis
    using hook by blast
qed

theorem capacity_check_sites_witness:
  "on_children (new_grid\<lparr>cols := Some 2, rows := Some 2\<rparr>)
      (replicate 5 (new_widget (Some 1, Some 1) (10, 10))) = Inl GridLayoutException
   \<and> set_children (new_grid\<lparr>cols := Some 2, rows := Some 2\<rparr>)
        (replicate 5 (new_widget (Some 1, Some 1) (10, 10)))
       = (Some GridLayoutException, new_grid\<lparr>cols := Some 2, rows := Some 2\<rparr>)
   \<and> compute_layout full_rgrid 5 = Inl GridLayoutException"
proof -
  let ?s = "new_grid\<lparr>cols := Some 2, rows := Some 2\<rparr>"
  let ?val = "replicate 5 (new_widget (Some 1, Some 1) (10, 10))"
  have "cols ?s = Some 2" and "rows ?s = Some 2" and "(0::nat) < 2" and "(0::nat) < 2"
    and "2 * 2 < length ?val"
    by simp_all
  from capacity_check_sites [OF this]
  have "on_children ?s ?val = Inl GridLayoutException"
    and "set_children ?s ?val = (Some GridLayoutException, ?s)"
    and "\<forall>t. cols t = Some 2 \<and> rows t = Some 2 \<longrightarrow>
            compute_layout t (length ?val) = Inl GridLayoutException"
    by blast+
  moreover have "cols full_rgrid = Some 2 \<and> rows full_rgrid = Some 2"
    by (simp add: full_rgrid_def)
  ultimately show ?thesis
    by simp
qed

text \<open>The claim as stated fails on the recycle grid: with \<^verbatim>\<open>cols=2\<close>, \<^verbatim>\<open>rows=2\<close> and five
  items the mutation hook raises nothing, and the layout pass raises.\<close>

theorem recycle_capacity_counterexample:
  "cols full_rgrid = Some 2 \<and> rows full_rgrid = Some 2 \<and> length (view_opts full_rgrid) = 5
   \<and> recycle_on_children full_rgrid (view_opts full_rgrid) = Inr ()
   \<and> compute_layout full_rgrid 5 = Inl GridLayoutException"
  by (simp add: full_rgrid_def recycle_on_children_def compute_layout_def get_max_widgets_def)

section \<open>The index under a point\<close>

lemma scan_pos_bounds: "ix \<le> scan_pos x vs ix \<and> scan_pos x vs ix \<le> ix + int (length vs)"
proof (induction vs arbitrary: ix)
  case Nil
  then show ?case by simp
next
  case (Cons v vs)
  from Cons.IH [of "ix + 1"] show ?case
    by auto
qed

lemma slot_at_bounds:
  assumes "bounds \<noteq> []" and "length bounds = length sizes"
  shows "\<exists>k. slot_at x bounds (Some sizes) = Inr k \<and> 0 \<le> k \<and> k < int (length sizes)"
proof (cases "x \<ge> last bounds")
  case True
  with assms show ?thesis
    by (auto simp: slot_at_def)
next
  case False
  from scan_pos_bounds [of 0 x "tl bounds"] assms
  have "0 \<le> scan_pos x (tl bounds) 0 \<and> scan_pos x (tl bounds) 0 < int (length sizes)"
    by (cases bounds) auto
  with False show ?thesis
    by (simp add: slot_at_def)
qed

lemma cell_index_bounds:
  fixes ix iy r c :: int
  assumes "0 \<le> ix" and "ix < c" and "0 \<le> iy" and "iy < r"
  shows "0 \<le> (r - iy - 1) * c + ix \<and> (r - iy - 1) * c + ix < r * c"
proof -
  have "0 \<le> (r - iy - 1) * c"
    using assms by (intro mult_nonneg_nonneg) auto
  moreover have "(r - iy - 1) * c \<le> (r - 1) * c"
    using assms by (intro mult_right_mono) auto
  moreover have "(r - 1) * c = r * c - c"
    by (simp add: algebra_simps)
  ultimately show ?thesis
    using assms by linarith
qed

lemma view_index_shaped:
  assumes "grid_shaped s cs rs"
  shows "\<exists>k. get_view_index_at s p = Inr k \<and> 0 \<le> k \<and> k < int (length rs) * int (length cs)"
proof -
  from assms obtain cp rp where
    shape: "cs \<noteq> []" "rs \<noteq> []" "p_cols s = Some cs" "p_rows s = Some rs"
      "p_cols_pos s = Some cp" "p_rows_pos s = Some rp"
      "length cp = length cs" "length rp = length rs"
    by (auto simp: grid_shaped_def)
  then have "cp \<noteq> []" and "rp \<noteq> []"
    by auto
  from slot_at_bounds [OF \<open>cp \<noteq> []\<close> shape(7), of "fst p"] obtain ix where
    ix: "slot_at (fst p) cp (Some cs) = Inr ix" "0 \<le> ix" "ix < int (length cs)"
    by blast
  from slot_at_bounds [OF \<open>rp \<noteq> []\<close> shape(8), of "snd p"] obtain iy where
    iy: "slot_at (snd p) rp (Some rs) = Inr iy" "0 \<le> iy" "iy < int (length rs)"
    by blast
  from shape ix(1) iy(1) \<open>cp \<noteq> []\<close> \<open>rp \<noteq> []\<close>
  have "get_view_index_at s p = Inr ((int (length rs) - iy - 1) * int (length cs) + ix)"
    by (simp add: get_view_index_at_def)
  with cell_index_bounds [OF ix(2,3) iy(2,3)] show ?thesis
    by simp
qed

lemma cols_pos_loop_length: "length (cols_pos_loop lst sx vs) = length vs"
  by (induction vs arbitrary: lst) simp_all

lemma rows_pos_loop_length: "length (rows_pos_loop lst sy vs) = length vs"
  by (induction vs arbitrary: lst) simp_all

lemma boundaries_shaped:
  assumes "boundaries s = Inr s'"
  shows "\<exists>cs rs. grid_shaped s' cs rs"
  using assms
  by (auto simp: boundaries_def grid_shaped_def Let_def cols_pos_loop_length rows_pos_loop_length
      split: prod.splits option.splits list.splits)

lemma full_layout_shaped:
  assumes "full_layout s n = Inr s'" and "p_cols s' = Some cs" and "p_rows s' = Some rs"
  shows "grid_shaped s' cs rs"
proof -
  from assms(1,2) obtain s4 where "boundaries s4 = Inr s'"
    by (auto simp: full_layout_def split: sum.splits prod.splits bool.splits)
  from boundaries_shaped [OF this] assms(2,3) show ?thesis
    by (auto simp: grid_shaped_def)
qed

lemma three_items:
  "\<exists>t'. compute_layout three_item_rgrid 3 = Inr t' \<and> get_view_index_at t' (150, 10) = Inr 3"
  by (simp add: three_item_rgrid_def new_rgrid_def new_grid_def new_widget_def grid.extend_def
      compute_layout_def get_max_widgets_def full_layout_def init_rows_cols_sizes_def
      resolve_shape_def ceil_div_int recycle_fill_rows_cols_sizes_def count_axis_def
      fill_child_def fill_axis_def list_get_def update_minimum_size_def
      finalize_rows_cols_sizes_def finalize_cols_def finalize_rows_def stretch_weight_def
      iterate_layout_def top_def place_opt_def boundaries_def get_view_index_at_def slot_at_def
      replicate_two upt_two numeral_3_eq_3 case_prod_unfold mod_Suc div_Suc)

lemma update_shaped:
  assumes "update_rows_cols_sizes s ch = Inr (ret, s')" and "grid_shaped s cs rs"
  shows "grid_shaped s' cs rs"
  using assms
  by (auto simp: update_rows_cols_sizes_def grid_shaped_def split: option.splits sum.splits)

lemma three_items_shape:
  "\<exists>t'. compute_layout three_item_rgrid 3 = Inr t'
     \<and> p_cols t' = Some [100, 100] \<and> p_rows t' = Some [50, 50]"
  by (simp add: three_item_rgrid_def new_rgrid_def new_grid_def new_widget_def grid.extend_def
      compute_layout_def get_max_widgets_def full_layout_def init_rows_cols_sizes_def
      resolve_shape_def ceil_div_int recycle_fill_rows_cols_sizes_def count_axis_def
      fill_child_def fill_axis_def list_get_def update_minimum_size_def
      finalize_rows_cols_sizes_def finalize_cols_def finalize_rows_def stretch_weight_def
      iterate_layout_def top_def place_opt_def boundaries_def
      replicate_two upt_two numeral_3_eq_3 case_prod_unfold mod_Suc div_Suc)

text \<open>
  Claim C10. After a completed pass \<^verbatim>\<open>compute_layout\<close> of the recycle grid that leaves
  \<open>c\<close> columns and \<open>r\<close> rows (a full pass, or a skipped one over a grid a full pass has
  shaped), \<^verbatim>\<open>get_view_index_at\<close> returns for every point an integer in \<open>[0, r * c)\<close>. The
  result is clamped to the grid, not to the item count: with three items in two columns
  the point \<open>(150, 10)\<close> of the empty last cell gives index 3.
\<close>

theorem view_index_in_range:
  assumes "compute_layout s n = Inr s'" and "p_cols s' = Some cs" and "p_rows s' = Some rs"
    and "(\<exists>cs0 rs0. grid_shaped s cs0 rs0) \<or> changed_views s = Some []
         \<or> (\<exists>ch s1. changed_views s = Some ch \<and> update_rows_cols_sizes s ch = Inr (True, s1))"
  shows "(\<exists>k. get_view_index_at s' p = Inr k \<and> 0 \<le> k \<and> k < int (length rs) * int (length cs))
     \<and> (\<exists>t' q k. compute_layout three_item_rgrid 3 = Inr t'
           \<and> length (view_opts three_item_rgrid) = 3
           \<and> get_view_index_at t' q = Inr k \<and> 3 \<le> k)"
proof
  have "grid_shaped s' cs rs"
  proof (cases "changed_views s")
    case None
    with assms(1) have "s' = s"
      by (simp add: compute_layout_def split: if_splits)
    with None assms(2,3,4) show ?thesis
      by (auto simp: grid_shaped_def)
  next
    case (Some ch)
    show ?thesis
    proof (cases "ch = []")
      case True
      with Some assms(1) have "full_layout s n = Inr s'"
        by (simp add: compute_layout_def split: if_splits)
      then show ?thesis
        using assms(2,3) by (rule full_layout_shaped)
    next
      case False
      with Some assms(1) obtain ret s1 where
        upd: "update_rows_cols_sizes s ch = Inr (ret, s1)"
        and rest: "if ret then full_layout s1 n = Inr s' else s' = s1"
        by (auto simp: compute_layout_def split: if_splits sum.splits bool.splits)
      show ?thesis
      proof (cases ret)
        case True
        with rest have "full_layout s1 n = Inr s'"
          by simp
        then show ?thesis
          using assms(2,3) by (rule full_layout_shaped)
      next
        case ret: False
        with rest have "s' = s1"
          by simp
        from assms(4) Some False upd ret obtain cs0 rs0 where "grid_shaped s cs0 rs0"
          by auto
        from update_shaped [OF upd this] \<open>s' = s1\<close> assms(2,3) show ?thesis
          by (auto simp: grid_shaped_def)
      qed
    qed
  qed
  then show "\<exists>k. get_view_index_at s' p = Inr k \<and> 0 \<le> k \<and> k < int (length rs) * int (length cs)"
    by (rule view_index_shaped)
next
  from three_items obtain t' where
    "compute_layout three_item_rgrid 3 = Inr t'" "get_view_index_at t' (150, 10) = Inr 3"
    by blast
  moreover have "length (view_opts three_item_rgrid) = 3"
    by (simp add: three_item_rgrid_def)
  ultimately show "\<exists>t' q k. compute_layout three_item_rgrid 3 = Inr t'
           \<and> length (view_opts three_item_rgrid) = 3
           \<and> get_view_index_at t' q = Inr k \<and> 3 \<le> k"
    by fastforce
qed

theorem view_index_in_range_witness:
  "\<exists>t' k. compute_layout three_item_rgrid 3 = Inr t'
     \<and> get_view_index_at t' (1000, - 5) = Inr k \<and> 0 \<le> k \<and> k < 4"
proof -
  from three_items_shape obtain t' where
    t': "compute_layout three_item_rgrid 3 = Inr t'"
      "p_cols t' = Some [100, 100]" "p_rows t' = Some [50, 50]"
    by blast
  have "changed_views three_item_rgrid = Some []"
    by (simp add: three_item_rgrid_def)
  then have "(\<exists>cs0 rs0. grid_shaped three_item_rgrid cs0 rs0) \<or> changed_views three_item_rgrid = Some []
         \<or> (\<exists>ch s1. changed_views three_item_rgrid = Some ch
               \<and> update_rows_cols_sizes three_item_rgrid ch = Inr (True, s1))"
    by simp
  from view_index_in_range [OF t' this, of "(1000, - 5)"] t'(1) show ?thesis
    by auto
qed

section \<open>The incremental update\<close>

lemma two_items_counted: "compute_layout two_item_rgrid 2 = Inr counted_rgrid"
  by (simp add: two_item_rgrid_def counted_rgrid_def new_rgrid_def new_grid_def new_widget_def
      grid.extend_def
      compute_layout_def get_max_widgets_def full_layout_def init_rows_cols_sizes_def
      resolve_shape_def ceil_div_int recycle_fill_rows_cols_sizes_def count_axis_def
      fill_child_def fill_axis_def list_get_def update_minimum_size_def
      finalize_rows_cols_sizes_def finalize_cols_def finalize_rows_def stretch_weight_def
      iterate_layout_def top_def place_opt_def boundaries_def hist_add_def hist_count_def
      replicate_two upt_two case_prod_unfold mod_Suc div_Suc)

lemma hist_count_add: "hist_count (hist_add m k d) j = (if j = k then hist_count m k + d else hist_count m j)"
  by (simp add: hist_add_def hist_count_def)

lemma update_axis_quiet:
  assumes "w \<noteq> wn" and "1 \<le> hist_count m w"
    and "\<not> spec_forces_recompute col_w (hist_count m) w wn"
  shows "\<exists>m'. update_axis m col_w w wn = (False, m')
           \<and> hist_count m' = spec_patch (hist_count m) w wn"
proof (cases "hist_count m w \<le> 1")
  case True
  with assms(2) have one: "hist_count m w = 1"
    by simp
  with assms(1,3) have "update_axis m col_w w wn
      = (False, (hist_add (hist_add m w (- 1)) wn 1)(w := None))"
    by (auto simp: update_axis_def Let_def hist_count_add spec_forces_recompute_def)
  moreover have "hist_count ((hist_add (hist_add m w (- 1)) wn 1)(w := None))
      = spec_patch (hist_count m) w wn"
    using assms(1) one
    by (auto simp: fun_eq_iff spec_patch_def hist_count_def hist_add_def)
  ultimately show ?thesis
    by simp
next
  case False
  with assms(1,3) have "update_axis m col_w w wn = (False, hist_add (hist_add m w (- 1)) wn 1)"
    by (auto simp: update_axis_def Let_def hist_count_add spec_forces_recompute_def)
  moreover have "hist_count (hist_add (hist_add m w (- 1)) wn 1) = spec_patch (hist_count m) w wn"
    using assms(1) by (auto simp: fun_eq_iff spec_patch_def hist_count_add)
  ultimately show ?thesis
    by simp
qed

lemma update_slot_quiet:
  assumes "spec_axis_quiet sizes (map hist_count counts) k w wn"
  shows "\<exists>counts'. update_slot (Some sizes) counts k w wn = Inr (False, counts')
           \<and> map hist_count counts' = spec_axis_patch (map hist_count counts) k w wn"
proof (cases "w = wn")
  case True
  then show ?thesis
    by (simp add: update_slot_def spec_axis_patch_def)
next
  case False
  with assms have k: "k < length sizes" "k < length counts"
    and live: "1 \<le> hist_count (counts ! k) w"
    and calm: "\<not> spec_forces_recompute (sizes ! k) (hist_count (counts ! k)) w wn"
    by (auto simp: spec_axis_quiet_def)
  from update_axis_quiet [OF False live calm] obtain m' where
    m': "update_axis (counts ! k) (sizes ! k) w wn = (False, m')"
      "hist_count m' = spec_patch (hist_count (counts ! k)) w wn"
    by blast
  from False k m'(1) have "update_slot (Some sizes) counts k w wn = Inr (False, counts[k := m'])"
    by (simp add: update_slot_def list_get_def)
  moreover from False k m'(2)
  have "map hist_count (counts[k := m']) = spec_axis_patch (map hist_count counts) k w wn"
    by (simp add: spec_axis_patch_def map_update)
  ultimately show ?thesis
    by blast
qed

lemma update_change_quiet:
  assumes "spec_quiet cs rs (map hist_count cc, map hist_count rc) c"
  shows "\<exists>cc' rc'. update_change (Some cs) (Some rs) (cc, rc, rm) c
             = Inr (False, cc', rc', rm @ spec_removed [c])
           \<and> (map hist_count cc', map hist_count rc')
               = spec_patched (map hist_count cc, map hist_count rc) c"
proof (cases "spec_handed_back c")
  case True
  with assms show ?thesis
    by (auto simp: update_change_def spec_quiet_def spec_handed_back_def spec_patched_def
        spec_removed_def case_prod_unfold)
next
  case False
  with assms have same: "ch_sh c = ch_new_sh c" and ne: "cc \<noteq> []"
    and qx: "spec_axis_quiet cs (map hist_count cc) (ch_index c mod length cc)
               (fst (ch_size c)) (fst (ch_new_size c))"
    and qy: "spec_axis_quiet rs (map hist_count rc) (ch_index c div length cc)
               (snd (ch_size c)) (snd (ch_new_size c))"
    by (auto simp: spec_quiet_def)
  from update_slot_quiet [OF qx] obtain cc' where
    cc': "update_slot (Some cs) cc (ch_index c mod length cc) (fst (ch_size c)) (fst (ch_new_size c))
            = Inr (False, cc')"
      "map hist_count cc' = spec_axis_patch (map hist_count cc) (ch_index c mod length cc)
            (fst (ch_size c)) (fst (ch_new_size c))"
    by blast
  from update_slot_quiet [OF qy] obtain rc' where
    rc': "update_slot (Some rs) rc (ch_index c div length cc) (snd (ch_size c)) (snd (ch_new_size c))
            = Inr (False, rc')"
      "map hist_count rc' = spec_axis_patch (map hist_count rc) (ch_index c div length cc)
            (snd (ch_size c)) (snd (ch_new_size c))"
    by blast
  from False same ne cc'(1) rc'(1)
  have "update_change (Some cs) (Some rs) (cc, rc, rm) c = Inr (False, cc', rc', rm)"
    by (simp add: update_change_def spec_handed_back_def case_prod_unfold)
  moreover from False cc'(2) rc'(2)
  have "(map hist_count cc', map hist_count rc')
      = spec_patched (map hist_count cc, map hist_count rc) c"
    by (simp add: spec_patched_def)
  ultimately show ?thesis
    using False by (simp add: spec_removed_def)
qed

lemma update_loop_quiet:
  assumes "spec_quiet_batch cs rs (map hist_count cc, map hist_count rc) changed"
  shows "\<exists>cc' rc'. update_loop (Some cs) (Some rs) (cc, rc, rm) changed
             = Inr (False, cc', rc', rm @ spec_removed changed)
           \<and> (map hist_count cc', map hist_count rc')
               = foldl spec_patched (map hist_count cc, map hist_count rc) changed"
  using assms
proof (induction changed arbitrary: cc rc rm)
  case Nil
  then show ?case
    by (simp add: spec_removed_def)
next
  case (Cons c rest)
  then have q: "spec_quiet cs rs (map hist_count cc, map hist_count rc) c"
    and qs: "spec_quiet_batch cs rs (spec_patched (map hist_count cc, map hist_count rc) c) rest"
    by simp_all
  from update_change_quiet [OF q, of rm] obtain cc1 rc1 where
    one: "update_change (Some cs) (Some rs) (cc, rc, rm) c
            = Inr (False, cc1, rc1, rm @ spec_removed [c])"
      "(map hist_count cc1, map hist_count rc1)
         = spec_patched (map hist_count cc, map hist_count rc) c"
    by blast
  from qs one(2) have "spec_quiet_batch cs rs (map hist_count cc1, map hist_count rc1) rest"
    by simp
  from Cons.IH [OF this, of "rm @ spec_removed [c]"] obtain cc' rc' where
    "update_loop (Some cs) (Some rs) (cc1, rc1, rm @ spec_removed [c]) rest
       = Inr (False, cc', rc', (rm @ spec_removed [c]) @ spec_removed rest)"
    "(map hist_count cc', map hist_count rc')
       = foldl spec_patched (map hist_count cc1, map hist_count rc1) rest"
    by blast
  with one show ?case
    by (simp add: spec_removed_def)
qed

text \<open>
  Claim C7, amended. For every batch in which no changed item triggers a full recompute
  (\<open>spec_quiet_batch\<close>: the size hint of every item is unchanged; for every changed fixed
  length the old length is not the slot's size claimed for the last time, and the new
  length does not exceed the slot's size), \<^verbatim>\<open>_update_rows_cols_sizes\<close> returns \<^verbatim>\<open>False\<close>,
  changes nothing but the histograms and the views handed to \<^verbatim>\<open>remove_view\<close> (so every
  column and row size and stretch weight stays), leaves the counts as the spec's patch
  gives them (old value decremented, new value incremented; an item that changed a
  length on an axis with a hint is handed to \<^verbatim>\<open>remove_view\<close> and patches nothing), and
  \<^verbatim>\<open>compute_layout\<close> then returns without the full pipeline.
\<close>

theorem quiet_batch_patches_counts:
  assumes "p_cols s = Some cs" and "p_rows s = Some rs"
    and "p_cols_count s = Some cc" and "p_rows_count s = Some rc"
    and "spec_quiet_batch cs rs (map hist_count cc, map hist_count rc) changed"
  shows "\<exists>cc' rc'.
       update_rows_cols_sizes s changed
         = Inr (False, s\<lparr>p_cols_count := Some cc', p_rows_count := Some rc',
                         removed_views := removed_views s @ spec_removed changed\<rparr>)
     \<and> (map hist_count cc', map hist_count rc')
         = foldl spec_patched (map hist_count cc, map hist_count rc) changed
     \<and> (changed \<noteq> [] \<and> changed_views s = Some changed \<and> get_max_widgets s = None \<longrightarrow>
          compute_layout s n
            = Inr (s\<lparr>p_cols_count := Some cc', p_rows_count := Some rc',
                      removed_views := removed_views s @ spec_removed changed\<rparr>))"
proof -
  from update_loop_quiet [OF assms(5), of "removed_views s"] obtain cc' rc' where
    loop: "update_loop (Some cs) (Some rs) (cc, rc, removed_views s) changed
             = Inr (False, cc', rc', removed_views s @ spec_removed changed)"
    and tallies: "(map hist_count cc', map hist_count rc')
               = foldl spec_patched (map hist_count cc, map hist_count rc) changed"
    by blast
  from loop assms(1-4) have upd: "update_rows_cols_sizes s changed
         = Inr (False, s\<lparr>p_cols_count := Some cc', p_rows_count := Some rc',
                         removed_views := removed_views s @ spec_removed changed\<rparr>)"
    by (simp add: update_rows_cols_sizes_def)
  then have "changed \<noteq> [] \<and> changed_views s = Some changed \<and> get_max_widgets s = None \<longrightarrow>
          compute_layout s n
            = Inr (s\<lparr>p_cols_count := Some cc', p_rows_count := Some rc',
                      removed_views := removed_views s @ spec_removed changed\<rparr>)"
    by (simp add: compute_layout_def)
  with upd tallies show ?thesis
    by blast
qed

theorem quiet_batch_patches_counts_witness:
  "\<exists>cc' rc'. update_rows_cols_sizes counted_rgrid [shrink_change]
        = Inr (False, counted_rgrid\<lparr>p_cols_count := Some cc', p_rows_count := Some rc'\<rparr>)
     \<and> map (\<lambda>f. (f 50, f 30, f 20)) (map hist_count cc') = [(1, 0, 1)]"
proof -
  have "p_cols counted_rgrid = Some [50]" and "p_rows counted_rgrid = Some [10, 10]"
    and "p_cols_count counted_rgrid = Some [Map.empty(50 \<mapsto> 1, 30 \<mapsto> 1)]"
    and "p_rows_count counted_rgrid = Some [Map.empty, Map.empty]"
    and "spec_quiet_batch [50] [10, 10]
           (map hist_count [Map.empty(50 \<mapsto> 1, 30 \<mapsto> 1)], map hist_count [Map.empty, Map.empty])
           [shrink_change]"
    by (simp_all add: counted_rgrid_def shrink_change_def spec_quiet_def spec_handed_back_def
        spec_axis_quiet_def spec_forces_recompute_def hist_count_def)
  from quiet_batch_patches_counts [OF this, of 2] obtain cc' rc' where
    upd: "update_rows_cols_sizes counted_rgrid [shrink_change]
         = Inr (False, counted_rgrid\<lparr>p_cols_count := Some cc', p_rows_count := Some rc',
                  removed_views := removed_views counted_rgrid @ spec_removed [shrink_change]\<rparr>)"
    and tallies: "(map hist_count cc', map hist_count rc')
         = foldl spec_patched (map hist_count [Map.empty(50 \<mapsto> 1, 30 \<mapsto> 1)],
             map hist_count [Map.empty, Map.empty]) [shrink_change]"
    by blast
  have "removed_views counted_rgrid @ spec_removed [shrink_change] = removed_views counted_rgrid"
    by (simp add: spec_removed_def spec_handed_back_def shrink_change_def)
  with upd have "update_rows_cols_sizes counted_rgrid [shrink_change]
        = Inr (False, counted_rgrid\<lparr>p_cols_count := Some cc', p_rows_count := Some rc'\<rparr>)"
    by simp
  moreover from tallies
  have "map hist_count cc' = [spec_patch (hist_count (Map.empty(50 \<mapsto> 1, 30 \<mapsto> 1))) 30 20]"
    by (simp add: spec_patched_def spec_handed_back_def spec_axis_patch_def shrink_change_def)
  then have "map (\<lambda>f. (f 50, f 30, f 20)) (map hist_count cc') = [(1, 0, 1)]"
    by (simp add: spec_patch_def hist_count_def)
  ultimately show ?thesis
    by (intro exI [of _ cc'] exI [of _ rc'] conjI)
qed

text \<open>The claim as stated fails for a hint that changes its value but not its presence:
  item 1 keeps its sizes and has a vertical hint before and after (1, then 2), and the
  update asks for a full recompute (line 483 compares the hints themselves).\<close>

theorem hint_value_change_counterexample:
  "compute_layout two_item_rgrid 2 = Inr counted_rgrid
   \<and> (fst (ch_sh rehint_change) = None) = (fst (ch_new_sh rehint_change) = None)
   \<and> (snd (ch_sh rehint_change) = None) = (snd (ch_new_sh rehint_change) = None)
   \<and> ch_size rehint_change = ch_new_size rehint_change
   \<and> update_rows_cols_sizes counted_rgrid [rehint_change] = Inr (True, counted_rgrid)"
  using two_items_counted
  by (simp add: rehint_change_def update_rows_cols_sizes_def update_change_def counted_rgrid_def)

end
